theory Spec2Isabelle
  imports Main "HOL-Library.Char_ord" "HOL-Library.List_Lexorder" "HOL-Library.Sublist"
begin

section \<open>The task store of DailyTaskReminder (storage.py)\<close>

text \<open>
  The store keeps a JSON array of task dictionaries in one file. Every public method of
  \<^verbatim>\<open>TaskStorage\<close> re-reads the file with \<^verbatim>\<open>_load\<close>, works on the list in memory and, when
  it changes something, writes the whole list back with \<^verbatim>\<open>_save\<close>. The embedding passes
  the file content explicitly: each operation takes the file and returns its result
  together with the file afterwards.

  Inputs that the code reads from its environment are parameters of the model:
  the current time \<^verbatim>\<open>datetime.now(timezone.utc).isoformat()\<close> is the string \<open>now\<close>, and
  \<^verbatim>\<open>uuid.uuid4().hex\<close> is the string \<open>uuid_hex\<close>. Strings are compared as Python compares
  them, lexicographically by character code (characters are code points below 256).
  Failures of the file system (\<^verbatim>\<open>OSError\<close>) are not modelled.
\<close>

subsection \<open>Task records\<close>

text \<open>
  A task is the dictionary built by \<^verbatim>\<open>add_task\<close>. The optional timestamps are \<open>None\<close>
  for JSON \<^verbatim>\<open>null\<close> (or an absent key, which \<^verbatim>\<open>t.get\<close> reads as \<^verbatim>\<open>None\<close>); \<open>notified\<close>
  is \<open>False\<close> when the key is absent (\<^verbatim>\<open>t.get("notified", False)\<close>). The field \<^verbatim>\<open>id\<close> is
  named \<open>id_t\<close> here. \<open>status\<close> stays a string, as in the source, because
  \<^verbatim>\<open>update_task\<close> can store any value.
\<close>

record task =
  id_t :: string
  title :: string
  description :: string
  due_at :: "string option"
  remind_at :: "string option"
  status :: string
  notified :: bool
  created_at :: string

text \<open>
  The keyword arguments \<^verbatim>\<open>**fields\<close> of \<^verbatim>\<open>update_task\<close>: for each key of a task, \<open>None\<close> when
  the key is not among the arguments and \<open>Some v\<close> when it is given the value \<open>v\<close>.
\<close>

record task_fields =
  f_id :: "string option"
  f_title :: "string option"
  f_description :: "string option"
  f_due_at :: "string option option"
  f_remind_at :: "string option option"
  f_status :: "string option"
  f_notified :: "bool option"
  f_created_at :: "string option"

text \<open>\<^verbatim>\<open>task.update(fields)\<close>: every key given in \<open>fields\<close> replaces the task's value.\<close>

definition dict_update :: "task \<Rightarrow> task_fields \<Rightarrow> task" where
  "dict_update t fields' =
     \<lparr> id_t = (case f_id fields' of None \<Rightarrow> id_t t | Some v \<Rightarrow> v),
       title = (case f_title fields' of None \<Rightarrow> title t | Some v \<Rightarrow> v),
       description = (case f_description fields' of None \<Rightarrow> description t | Some v \<Rightarrow> v),
       due_at = (case f_due_at fields' of None \<Rightarrow> due_at t | Some v \<Rightarrow> v),
       remind_at = (case f_remind_at fields' of None \<Rightarrow> remind_at t | Some v \<Rightarrow> v),
       status = (case f_status fields' of None \<Rightarrow> status t | Some v \<Rightarrow> v),
       notified = (case f_notified fields' of None \<Rightarrow> notified t | Some v \<Rightarrow> v),
       created_at = (case f_created_at fields' of None \<Rightarrow> created_at t | Some v \<Rightarrow> v) \<rparr>"

definition no_fields :: task_fields where
  "no_fields =
     \<lparr> f_id = None, f_title = None, f_description = None, f_due_at = None,
       f_remind_at = None, f_status = None, f_notified = None, f_created_at = None \<rparr>"

subsection \<open>The backing file: \<^verbatim>\<open>_load\<close> and \<^verbatim>\<open>_save\<close>\<close>

text \<open>
  The file content as \<^verbatim>\<open>json.load\<close> sees it: either it decodes to a list of tasks, or
  decoding raises \<^verbatim>\<open>json.JSONDecodeError\<close>.
\<close>

datatype backing_file = Json "task list" | Malformed

text \<open>
  \<^verbatim>\<open>_load\<close> (storage.py 140-150): the \<^verbatim>\<open>except json.JSONDecodeError\<close> branch sets
  \<^verbatim>\<open>data = []\<close>.
\<close>

definition load :: "backing_file \<Rightarrow> task list" where
  "load f = (case f of Json data \<Rightarrow> data | Malformed \<Rightarrow> [])"

text \<open>\<^verbatim>\<open>_save\<close> (storage.py 152-160) replaces the file content by the dump of the list.\<close>

definition save :: "task list \<Rightarrow> backing_file" where
  "save tasks = Json tasks"

subsection \<open>Identifier resolution\<close>

text \<open>\<^verbatim>\<open>s.startswith(p)\<close>.\<close>

definition startswith :: "string \<Rightarrow> string \<Rightarrow> bool" where
  "startswith s p = prefix p s"

text \<open>
  \<^verbatim>\<open>_find\<close> (storage.py 162-172): the first task whose id equals \<open>task_id\<close>; failing
  that, for a \<open>task_id\<close> of at least 4 characters, the only task whose id starts with it.
\<close>

definition find_task :: "task list \<Rightarrow> string \<Rightarrow> task option" where
  "find_task tasks task_id =
     (case find (\<lambda>t. id_t t = task_id) tasks of
        Some t \<Rightarrow> Some t
      | None \<Rightarrow>
          if length task_id \<ge> 4 then
            (let matches = filter (\<lambda>t. startswith (id_t t) task_id) tasks
             in if length matches = 1 then Some (matches ! 0) else None)
          else None)"

text \<open>
  \<^verbatim>\<open>_find\<close> returns a reference to an element of the list, and \<^verbatim>\<open>update_task\<close> mutates
  that element in place. \<open>find_pos\<close> is the position of the element \<^verbatim>\<open>_find\<close> returns
  (lemma \<open>find_task_pos\<close> below).
\<close>

fun index_where :: "('a \<Rightarrow> bool) \<Rightarrow> 'a list \<Rightarrow> nat option" where
  "index_where P [] = None"
| "index_where P (x # xs) = (if P x then Some 0 else map_option Suc (index_where P xs))"

definition find_pos :: "task list \<Rightarrow> string \<Rightarrow> nat option" where
  "find_pos tasks task_id =
     (case index_where (\<lambda>t. id_t t = task_id) tasks of
        Some i \<Rightarrow> Some i
      | None \<Rightarrow>
          if length task_id \<ge> 4 then
            (let matches = filter (\<lambda>t. startswith (id_t t) task_id) tasks
             in if length matches = 1
                then index_where (\<lambda>t. startswith (id_t t) task_id) tasks else None)
          else None)"

subsection \<open>Public operations\<close>

text \<open>
  \<^verbatim>\<open>add_task\<close> (storage.py 28-49). The id is \<^verbatim>\<open>uuid.uuid4().hex[:8]\<close>; the new task is
  appended to what \<^verbatim>\<open>_load\<close> returned and the list is saved.
\<close>

definition add_task ::
  "string \<Rightarrow> string \<Rightarrow> string \<Rightarrow> string \<Rightarrow> string option \<Rightarrow> string option
     \<Rightarrow> backing_file \<Rightarrow> task \<times> backing_file" where
  "add_task uuid_hex now title' description' due_at' remind_at' f =
     (let t = \<lparr> id_t = take 8 uuid_hex, title = title', description = description',
                due_at = due_at', remind_at = remind_at', status = ''pending'',
                notified = False, created_at = now \<rparr>;
          tasks = load f
      in (t, save (tasks @ [t])))"

text \<open>\<^verbatim>\<open>get_task\<close> (storage.py 51-63): the same resolution, written out again on the loaded list.\<close>

definition get_task :: "backing_file \<Rightarrow> string \<Rightarrow> task option" where
  "get_task f task_id =
     (let tasks = load f in
      case find (\<lambda>t. id_t t = task_id) tasks of
        Some t \<Rightarrow> Some t
      | None \<Rightarrow>
          if length task_id \<ge> 4 then
            (let matches = filter (\<lambda>t. startswith (id_t t) task_id) tasks
             in if length matches = 1 then Some (matches ! 0) else None)
          else None)"

text \<open>
  \<^verbatim>\<open>list_tasks\<close> (storage.py 65-83). In the overdue branch \<^verbatim>\<open>t.get("due_at")\<close> is a
  truth test: it fails for \<^verbatim>\<open>None\<close> and for the empty string, and only then is
  \<^verbatim>\<open>t["due_at"] < now\<close> evaluated.
\<close>

definition list_tasks :: "string \<Rightarrow> backing_file \<Rightarrow> string \<Rightarrow> task list" where
  "list_tasks now f status_filter =
     (let tasks = load f in
      if status_filter = ''all'' then tasks
      else if status_filter = ''pending'' then filter (\<lambda>t. status t = ''pending'') tasks
      else if status_filter = ''completed'' then filter (\<lambda>t. status t = ''completed'') tasks
      else if status_filter = ''overdue'' then
        filter (\<lambda>t. status t = ''pending'' \<and>
                    (case due_at t of None \<Rightarrow> False | Some d \<Rightarrow> d \<noteq> [] \<and> d < now)) tasks
      else tasks)"

text \<open>\<^verbatim>\<open>update_task\<close> (storage.py 85-96); nothing is saved when the task is not found.\<close>

definition update_task :: "backing_file \<Rightarrow> string \<Rightarrow> task_fields \<Rightarrow> task option \<times> backing_file" where
  "update_task f task_id fields' =
     (let tasks = load f in
      case find_pos tasks task_id of
        None \<Rightarrow> (None, f)
      | Some i \<Rightarrow>
          (let t = dict_update (tasks ! i) fields'
           in (Some t, save (tasks[i := t]))))"

text \<open>\<^verbatim>\<open>complete_task\<close> (storage.py 98-100): \<^verbatim>\<open>update_task(task_id, status="completed")\<close>.\<close>

definition complete_task :: "backing_file \<Rightarrow> string \<Rightarrow> task option \<times> backing_file" where
  "complete_task f task_id = update_task f task_id (no_fields\<lparr>f_status := Some ''completed''\<rparr>)"

text \<open>
  \<^verbatim>\<open>delete_task\<close> (storage.py 102-110): \<^verbatim>\<open>tasks.remove(task)\<close> removes the first element
  equal to the task found.
\<close>

definition delete_task :: "backing_file \<Rightarrow> string \<Rightarrow> task option \<times> backing_file" where
  "delete_task f task_id =
     (let tasks = load f in
      case find_task tasks task_id of
        None \<Rightarrow> (None, f)
      | Some t \<Rightarrow> (Some t, save (remove1 t tasks)))"

text \<open>
  \<^verbatim>\<open>get_due_reminders\<close> (storage.py 112-130). \<open>is_due\<close> is the condition of the list
  comprehension; \<^verbatim>\<open>t.get("remind_at")\<close> is again a truth test. The loop
  \<^verbatim>\<open>for t in due: t["notified"] = True\<close> mutates the selected dictionaries, which are
  elements of both \<open>due\<close> and \<open>tasks\<close>: the saved list has the flag set on exactly the
  selected elements, and so has the returned list. Nothing is saved when \<open>due\<close> is empty.
\<close>

definition is_due :: "string \<Rightarrow> task \<Rightarrow> bool" where
  "is_due now t \<longleftrightarrow>
     status t = ''pending'' \<and>
     (case remind_at t of None \<Rightarrow> False | Some r \<Rightarrow> r \<noteq> [] \<and> r \<le> now) \<and>
     \<not> notified t"

definition set_notified :: "task \<Rightarrow> task" where
  "set_notified t = t\<lparr>notified := True\<rparr>"

definition get_due_reminders :: "string \<Rightarrow> backing_file \<Rightarrow> task list \<times> backing_file" where
  "get_due_reminders now f =
     (let tasks = load f;
          due = filter (is_due now) tasks
      in if due \<noteq> [] then
           (map set_notified due,
            save (map (\<lambda>t. if is_due now t then set_notified t else t) tasks))
         else (due, f))"

subsection \<open>The list adapter (tools/list_tasks_tool.py)\<close>

definition VALID_FILTERS :: "string set" where
  "VALID_FILTERS = {''all'', ''pending'', ''completed'', ''overdue''}"

text \<open>
  Modelled from the spec: the response type \<^verbatim>\<open>MCPResponse\<close> of \<^verbatim>\<open>core.models\<close> is not among
  the sources; it is the uniform success/failure contract, a failure carrying a message
  and a success carrying the data (here the filter, the count and the tasks).
\<close>

datatype MCPResponse = failure string | success string nat "task list"

text \<open>
  \<^verbatim>\<open>ListTasksTool.handle\<close> (list_tasks_tool.py 20-29); \<open>payload_filter\<close> is
  \<^verbatim>\<open>request.payload.get("filter")\<close>, \<open>None\<close> when the key is absent.
\<close>

definition handle :: "string \<Rightarrow> backing_file \<Rightarrow> string option \<Rightarrow> MCPResponse" where
  "handle now f payload_filter =
     (let status_filter = (case payload_filter of None \<Rightarrow> ''pending'' | Some v \<Rightarrow> v) in
      if status_filter \<notin> VALID_FILTERS then
        failure (''Invalid filter '' @ [CHR 0x27] @ status_filter @ [CHR 0x27] @
                 ''. Must be one of: all, completed, overdue, pending.'')
      else
        (let tasks = list_tasks now f status_filter
         in success status_filter (length tasks) tasks))"

subsection \<open>Sequences of calls\<close>

text \<open>
  A request to \<^verbatim>\<open>add_task\<close>: the uuid drawn and the time read during the call, and the
  four arguments. \<open>add_tasks\<close> performs the calls one after the other on the same file.
\<close>

record add_request =
  r_uuid_hex :: string
  r_now :: string
  r_title :: string
  r_description :: string
  r_due_at :: "string option"
  r_remind_at :: "string option"

definition add_request_task :: "add_request \<Rightarrow> backing_file \<Rightarrow> task \<times> backing_file" where
  "add_request_task r f =
     add_task (r_uuid_hex r) (r_now r) (r_title r) (r_description r) (r_due_at r) (r_remind_at r) f"

fun add_tasks :: "add_request list \<Rightarrow> backing_file \<Rightarrow> backing_file" where
  "add_tasks [] f = f"
| "add_tasks (r # rs) f = add_tasks rs (snd (add_request_task r f))"

text \<open>
  Successive calls of \<^verbatim>\<open>get_due_reminders\<close>, one for each time in the list (the reminder
  loop of interactive_cli.py calls it once per tick); the result lists are collected.
\<close>

fun due_reminders_calls :: "string list \<Rightarrow> backing_file \<Rightarrow> task list list \<times> backing_file" where
  "due_reminders_calls [] f = ([], f)"
| "due_reminders_calls (now # nows) f =
     (let r = get_due_reminders now f;
          rs = due_reminders_calls nows (snd r)
      in (fst r # fst rs, snd rs))"

subsection \<open>Two callers of \<^verbatim>\<open>get_due_reminders\<close> on one file\<close>

text \<open>
  \<^verbatim>\<open>get_due_reminders\<close> touches the file twice: \<^verbatim>\<open>_load\<close> (line 117) takes the shared lock,
  reads and releases the lock; \<^verbatim>\<open>_save\<close> (line 129) takes the exclusive lock, writes and
  releases it. No lock is held in between. Each of the two is taken as one indivisible
  step here, which is the most the locks can give; everything between them works on the
  caller's own list. \<open>due_finish\<close> is lines 118-130 run on the list a caller loaded
  earlier, against the file as it is by then.
\<close>

definition due_finish :: "string \<Rightarrow> task list \<Rightarrow> backing_file \<Rightarrow> task list \<times> backing_file" where
  "due_finish now tasks f =
     (let due = filter (is_due now) tasks
      in if due \<noteq> [] then
           (map set_notified due,
            save (map (\<lambda>t. if is_due now t then set_notified t else t) tasks))
         else (due, f))"

datatype caller = Start | Loaded "task list" | Returned "task list"

datatype who = A | B

datatype event = Load who | Finish who string

record config =
  disk :: backing_file
  caller_a :: caller
  caller_b :: caller

text \<open>
  One step of a schedule. An event of a caller that is not at that point of the method
  leaves the configuration as it is.
\<close>

fun step :: "config \<Rightarrow> event \<Rightarrow> config" where
  "step c (Load A) =
     (case caller_a c of Start \<Rightarrow> c\<lparr>caller_a := Loaded (load (disk c))\<rparr> | _ \<Rightarrow> c)"
| "step c (Load B) =
     (case caller_b c of Start \<Rightarrow> c\<lparr>caller_b := Loaded (load (disk c))\<rparr> | _ \<Rightarrow> c)"
| "step c (Finish A now) =
     (case caller_a c of
        Loaded tasks \<Rightarrow>
          (let r = due_finish now tasks (disk c)
           in c\<lparr>disk := snd r, caller_a := Returned (fst r)\<rparr>)
      | _ \<Rightarrow> c)"
| "step c (Finish B now) =
     (case caller_b c of
        Loaded tasks \<Rightarrow>
          (let r = due_finish now tasks (disk c)
           in c\<lparr>disk := snd r, caller_b := Returned (fst r)\<rparr>)
      | _ \<Rightarrow> c)"

definition run :: "event list \<Rightarrow> backing_file \<Rightarrow> config" where
  "run evs f = foldl step \<lparr>disk = f, caller_a = Start, caller_b = Start\<rparr> evs"

text \<open>What a caller that has returned reported; nothing before it returns.\<close>

fun reported :: "caller \<Rightarrow> task set" where
  "reported (Returned due) = set due"
| "reported _ = {}"

subsection \<open>The bytes of the file\<close>

text \<open>
  \<^verbatim>\<open>_load\<close> opens the file with \<^verbatim>\<open>encoding="utf-8"\<close>, and \<^verbatim>\<open>json.load\<close> first reads the
  whole text. When the bytes are not UTF-8 that read raises \<^verbatim>\<open>UnicodeDecodeError\<close>, a
  \<^verbatim>\<open>ValueError\<close> that is not a \<^verbatim>\<open>json.JSONDecodeError\<close>: the \<^verbatim>\<open>except\<close> clause of lines
  146-147 does not catch it and it leaves \<^verbatim>\<open>_load\<close>. \<open>Utf8 c\<close> stands for bytes that
  decode, \<open>c\<close> being what \<^verbatim>\<open>json.load\<close> makes of the text; \<open>NotUtf8\<close> for bytes that do not.
\<close>

datatype py_error = UnicodeDecodeError

datatype file_bytes = Utf8 backing_file | NotUtf8

definition load_bytes :: "file_bytes \<Rightarrow> py_error + task list" where
  "load_bytes b = (case b of Utf8 c \<Rightarrow> Inr (load c) | NotUtf8 \<Rightarrow> Inl UnicodeDecodeError)"

text \<open>
  Every public method begins with \<^verbatim>\<open>tasks = self._load()\<close> and has no handler of its
  own: when \<^verbatim>\<open>_load\<close> raises, the method raises before it reaches \<^verbatim>\<open>_save\<close>, and the
  file stays as it is. Otherwise it is the operation defined above on the decoded
  content; what \<^verbatim>\<open>_save\<close> writes is JSON text, which decodes.
\<close>

definition get_task_bytes :: "file_bytes \<Rightarrow> string \<Rightarrow> py_error + task option" where
  "get_task_bytes b task_id =
     (case load_bytes b of
        Inl e \<Rightarrow> Inl e
      | Inr tasks \<Rightarrow> (case b of Utf8 c \<Rightarrow> Inr (get_task c task_id) | NotUtf8 \<Rightarrow> Inl UnicodeDecodeError))"

definition list_tasks_bytes :: "string \<Rightarrow> file_bytes \<Rightarrow> string \<Rightarrow> py_error + task list" where
  "list_tasks_bytes now b status_filter =
     (case load_bytes b of
        Inl e \<Rightarrow> Inl e
      | Inr tasks \<Rightarrow>
          (case b of Utf8 c \<Rightarrow> Inr (list_tasks now c status_filter)
           | NotUtf8 \<Rightarrow> Inl UnicodeDecodeError))"

definition add_task_bytes ::
  "string \<Rightarrow> string \<Rightarrow> string \<Rightarrow> string \<Rightarrow> string option \<Rightarrow> string option
     \<Rightarrow> file_bytes \<Rightarrow> (py_error + task) \<times> file_bytes" where
  "add_task_bytes uuid_hex now title' description' due_at' remind_at' b =
     (case load_bytes b of
        Inl e \<Rightarrow> (Inl e, b)
      | Inr tasks \<Rightarrow>
          (case b of
             Utf8 c \<Rightarrow>
               (let r = add_task uuid_hex now title' description' due_at' remind_at' c
                in (Inr (fst r), Utf8 (snd r)))
           | NotUtf8 \<Rightarrow> (Inl UnicodeDecodeError, b)))"

definition update_task_bytes ::
  "file_bytes \<Rightarrow> string \<Rightarrow> task_fields \<Rightarrow> (py_error + task option) \<times> file_bytes" where
  "update_task_bytes b task_id fields' =
     (case load_bytes b of
        Inl e \<Rightarrow> (Inl e, b)
      | Inr tasks \<Rightarrow>
          (case b of
             Utf8 c \<Rightarrow> (let r = update_task c task_id fields' in (Inr (fst r), Utf8 (snd r)))
           | NotUtf8 \<Rightarrow> (Inl UnicodeDecodeError, b)))"

definition complete_task_bytes :: "file_bytes \<Rightarrow> string \<Rightarrow> (py_error + task option) \<times> file_bytes" where
  "complete_task_bytes b task_id =
     update_task_bytes b task_id (no_fields\<lparr>f_status := Some ''completed''\<rparr>)"

definition delete_task_bytes :: "file_bytes \<Rightarrow> string \<Rightarrow> (py_error + task option) \<times> file_bytes" where
  "delete_task_bytes b task_id =
     (case load_bytes b of
        Inl e \<Rightarrow> (Inl e, b)
      | Inr tasks \<Rightarrow>
          (case b of
             Utf8 c \<Rightarrow> (let r = delete_task c task_id in (Inr (fst r), Utf8 (snd r)))
           | NotUtf8 \<Rightarrow> (Inl UnicodeDecodeError, b)))"

definition get_due_reminders_bytes :: "string \<Rightarrow> file_bytes \<Rightarrow> (py_error + task list) \<times> file_bytes" where
  "get_due_reminders_bytes now b =
     (case load_bytes b of
        Inl e \<Rightarrow> (Inl e, b)
      | Inr tasks \<Rightarrow>
          (case b of
             Utf8 c \<Rightarrow> (let r = get_due_reminders now c in (Inr (fst r), Utf8 (snd r)))
           | NotUtf8 \<Rightarrow> (Inl UnicodeDecodeError, b)))"

subsection \<open>Example data\<close>

text \<open>
  The two ids of the specification's prefix example, the timestamps of
  tests/test_storage.py, and a current time.
\<close>

definition now0 :: string where
  "now0 = ''2026-11-04T10:00:00+00:00''"

definition later :: string where
  "later = ''2100-01-01T00:00:00+00:00''"

definition task_past :: task where
  "task_past =
     \<lparr> id_t = ''abc12345'', title = ''Past reminder'', description = [],
       due_at = Some ''2020-01-01T00:00:00'', remind_at = Some ''2020-01-01T00:00:00'',
       status = ''pending'', notified = False, created_at = ''2019-12-31T08:00:00+00:00'' \<rparr>"

definition task_future :: task where
  "task_future =
     \<lparr> id_t = ''abc99999'', title = ''Future task'', description = [],
       due_at = None, remind_at = Some ''2099-01-01T00:00:00'',
       status = ''pending'', notified = False, created_at = ''2019-12-31T09:00:00+00:00'' \<rparr>"

definition task_done :: task where
  "task_done =
     \<lparr> id_t = ''0f3e9a77'', title = ''Do laundry'', description = [],
       due_at = Some ''2020-01-01T00:00:00'', remind_at = Some ''2020-01-01T00:00:00'',
       status = ''completed'', notified = False, created_at = ''2019-12-31T10:00:00+00:00'' \<rparr>"

text \<open>
  Three requests to \<^verbatim>\<open>add_task\<close>. The uuids of the first two differ, but not in their
  first 8 hexadecimal digits.
\<close>

definition request_a :: add_request where
  "request_a =
     \<lparr> r_uuid_hex = ''1b4e28ba2fa141d2883f0016d3cca427'', r_now = ''2026-11-04T09:00:00+00:00'',
       r_title = ''Task A'', r_description = [], r_due_at = None, r_remind_at = None \<rparr>"

definition request_b :: add_request where
  "request_b =
     \<lparr> r_uuid_hex = ''1b4e28ba5c3b4f0e9d2a7e6f8a9b0c1d'', r_now = ''2026-11-04T09:00:01+00:00'',
       r_title = ''Task B'', r_description = [], r_due_at = None, r_remind_at = None \<rparr>"

definition request_c :: add_request where
  "request_c =
     \<lparr> r_uuid_hex = ''7d444840a9dc41c5b1f2c3d4e5f60718'', r_now = ''2026-11-04T09:00:02+00:00'',
       r_title = ''Task C'', r_description = [], r_due_at = None, r_remind_at = None \<rparr>"

section \<open>Basic facts\<close>

lemma load_save [simp]: "load (save tasks) = tasks"
  by (simp add: load_def save_def)

lemma get_task_find_task: "get_task f task_id = find_task (load f) task_id"
  by (simp add: get_task_def find_task_def Let_def)

lemma is_due_spec:
  "is_due now =
     (\<lambda>t. status t = ''pending'' \<and> (\<exists>r. remind_at t = Some r \<and> r \<noteq> [] \<and> r \<le> now) \<and>
          \<not> notified t)"
  by (auto simp: is_due_def fun_eq_iff split: option.splits)

section \<open>Facts about the operations\<close>

lemma get_due_reminders_fst:
  "fst (get_due_reminders now f) = map set_notified (filter (is_due now) (load f))"
  by (simp add: get_due_reminders_def Let_def)

lemma get_due_reminders_load:
  "load (snd (get_due_reminders now f)) =
     map (\<lambda>t. if is_due now t then set_notified t else t) (load f)"
proof (cases "filter (is_due now) (load f) = []")
  case True
  then have "\<forall>t \<in> set (load f). \<not> is_due now t"
    by (simp add: filter_empty_conv)
  then have "map (\<lambda>t. if is_due now t then set_notified t else t) (load f) = load f"
    by (simp add: map_idI)
  with True show ?thesis
    by (simp add: get_due_reminders_def)
next
  case False
  then show ?thesis
    by (simp add: get_due_reminders_def Let_def)
qed

lemma set_notified_inj:
  "\<not> notified y \<Longrightarrow> \<not> notified z \<Longrightarrow> set_notified y = set_notified z \<Longrightarrow> y = z"
proof -
  assume a: "\<not> notified y" "\<not> notified z" "set_notified y = set_notified z"
  have "y = (set_notified y)\<lparr>notified := False\<rparr>"
    using a(1) by (simp add: set_notified_def)
  also have "\<dots> = (set_notified z)\<lparr>notified := False\<rparr>"
    using a(3) by simp
  also have "\<dots> = z"
    using a(2) by (simp add: set_notified_def)
  finally show ?thesis .
qed

lemma due_twice_disjoint:
  "set (fst (get_due_reminders now f)) \<inter>
   set (fst (get_due_reminders now2 (snd (get_due_reminders now f)))) = {}"
proof (rule ccontr)
  assume "\<not> ?thesis"
  then obtain x where x1: "x \<in> set (fst (get_due_reminders now f))"
    and x2: "x \<in> set (fst (get_due_reminders now2 (snd (get_due_reminders now f))))"
    by blast
  from x1 obtain y where y: "y \<in> set (load f)" "is_due now y" "x = set_notified y"
    by (auto simp: get_due_reminders_fst)
  from x2 obtain y' where y': "y' \<in> set (load (snd (get_due_reminders now f)))"
    "is_due now2 y'" "x = set_notified y'"
    by (auto simp: get_due_reminders_fst)
  from y'(1) obtain z where z: "z \<in> set (load f)"
    "y' = (if is_due now z then set_notified z else z)"
    by (auto simp: get_due_reminders_load)
  have nn: "\<not> notified y'" using y'(2) by (simp add: is_due_def)
  have nz: "\<not> is_due now z"
  proof
    assume "is_due now z"
    with z(2) have "notified y'" by (simp add: set_notified_def)
    with nn show False by simp
  qed
  with z(2) have "y' = z" by simp
  moreover have "y = y'"
  proof -
    have "set_notified y = x" using y(3) by (rule sym)
    also have "x = set_notified y'" by (rule y'(3))
    finally have e: "set_notified y = set_notified y'" .
    have ny: "\<not> notified y" using y(2) by (simp add: is_due_def)
    show ?thesis by (rule set_notified_inj [OF ny nn e])
  qed
  ultimately show False using y(2) nz by simp
qed

lemma add_task_load:
  "load (snd (add_task u c ti de du re f)) = load f @ [fst (add_task u c ti de du re f)]"
  by (simp add: add_task_def Let_def)


lemma get_due_reminders_pending:
  "d \<in> set (fst (get_due_reminders now f)) \<Longrightarrow> status d = ''pending''"
  by (auto simp: get_due_reminders_fst is_due_def set_notified_def)

lemma get_due_reminders_keeps:
  "t \<in> set (load f) \<Longrightarrow> \<not> is_due now t \<Longrightarrow> t \<in> set (load (snd (get_due_reminders now f)))"
  unfolding get_due_reminders_load by force

lemma due_reminders_calls_pending:
  "due \<in> set (fst (due_reminders_calls nows f)) \<Longrightarrow> d \<in> set due \<Longrightarrow> status d = ''pending''"
proof (induction nows arbitrary: f)
  case Nil
  then show ?case by simp
next
  case (Cons now nows)
  from Cons.prems(1) consider "due = fst (get_due_reminders now f)"
    | "due \<in> set (fst (due_reminders_calls nows (snd (get_due_reminders now f))))"
    by (auto simp: Let_def)
  then show ?case
  proof cases
    case 1
    with Cons.prems(2) show ?thesis by (simp add: get_due_reminders_pending)
  next
    case 2
    then show ?thesis using Cons.IH Cons.prems(2) by blast
  qed
qed

lemma due_reminders_calls_keeps:
  "t \<in> set (load f) \<Longrightarrow> status t \<noteq> ''pending'' \<Longrightarrow>
     t \<in> set (load (snd (due_reminders_calls nows f)))"
proof (induction nows arbitrary: f)
  case Nil
  then show ?case by simp
next
  case (Cons now nows)
  from Cons.prems have "t \<in> set (load (snd (get_due_reminders now f)))"
    by (intro get_due_reminders_keeps) (simp_all add: is_due_def)
  then show ?case using Cons.IH Cons.prems(2) by (simp add: Let_def)
qed

lemma index_where_Some:
  "index_where P xs = Some i \<Longrightarrow> i < length xs \<and> P (xs ! i)"
proof (induction xs arbitrary: i)
  case Nil
  then show ?case by simp
next
  case (Cons x xs)
  then show ?case by (auto split: if_splits)
qed

lemma find_pos_Some: "find_pos tasks s = Some i \<Longrightarrow> i < length tasks"
  by (auto simp: find_pos_def Let_def dest: index_where_Some split: option.splits if_splits)

lemma update_task_Some:
  "update_task f s fs = (Some t, f') \<Longrightarrow>
     \<exists>i < length (load f). find_pos (load f) s = Some i \<and> t = dict_update (load f ! i) fs \<and>
        f' = save ((load f)[i := t])"
  by (auto simp: update_task_def Let_def dest: find_pos_Some split: option.splits)

lemma update_task_None:
  "update_task f s fs = (None, f') \<Longrightarrow> f' = f"
  by (auto simp: update_task_def Let_def split: option.splits)


lemma add_request_task_load:
  "load (snd (add_request_task r f)) = load f @ [fst (add_request_task r f)]"
  by (simp add: add_request_task_def add_task_load)

lemma add_request_task_id: "id_t (fst (add_request_task r f)) = take 8 (r_uuid_hex r)"
  by (simp add: add_request_task_def add_task_def Let_def)

lemma add_tasks_ids:
  "map id_t (load (add_tasks rs f)) = map id_t (load f) @ map (\<lambda>r. take 8 (r_uuid_hex r)) rs"
proof (induction rs arbitrary: f)
  case Nil
  then show ?case by simp
next
  case (Cons r rs)
  show ?case
    by (simp add: Cons.IH add_request_task_load add_request_task_id)
qed


lemma find_index_where: "find P xs = map_option (nth xs) (index_where P xs)"
proof (induction xs)
  case Nil
  then show ?case by simp
next
  case (Cons x xs)
  then show ?case by (simp add: option.map_comp comp_def)
qed

lemma find_filter_hd: "find P xs = (case filter P xs of [] \<Rightarrow> None | x # _ \<Rightarrow> Some x)"
  by (induction xs) simp_all

lemma find_task_pos: "find_task tasks task_id = map_option (nth tasks) (find_pos tasks task_id)"
proof (cases "find (\<lambda>t. id_t t = task_id) tasks")
  case (Some t)
  then obtain i where "index_where (\<lambda>t. id_t t = task_id) tasks = Some i" "tasks ! i = t"
    by (auto simp: find_index_where)
  with Some show ?thesis
    by (simp add: find_task_def find_pos_def)
next
  case None
  then have n: "index_where (\<lambda>t. id_t t = task_id) tasks = None"
    by (simp add: find_index_where)
  show ?thesis
  proof (cases "4 \<le> length task_id \<and> length (filter (\<lambda>t. startswith (id_t t) task_id) tasks) = 1")
    case True
    then obtain u where u: "filter (\<lambda>t. startswith (id_t t) task_id) tasks = [u]"
      by (cases "filter (\<lambda>t. startswith (id_t t) task_id) tasks") auto
    then have "find (\<lambda>t. startswith (id_t t) task_id) tasks = Some u"
      by (simp add: find_filter_hd)
    then have "map_option (nth tasks) (index_where (\<lambda>t. startswith (id_t t) task_id) tasks) = Some u"
      by (simp add: find_index_where)
    with True None n u show ?thesis
      by (auto simp: find_task_def find_pos_def)
  next
    case False
    with None n show ?thesis
      by (auto simp: find_task_def find_pos_def Let_def)
  qed
qed

lemma update_task_load:
  "load (snd (update_task f s fs)) =
     (case find_pos (load f) s of
        None \<Rightarrow> load f
      | Some i \<Rightarrow> (load f)[i := dict_update (load f ! i) fs])"
  by (simp add: update_task_def Let_def split: option.splits)

lemma delete_task_load:
  "load (snd (delete_task f s)) =
     (case fst (delete_task f s) of None \<Rightarrow> load f | Some t \<Rightarrow> remove1 t (load f))"
  by (simp add: delete_task_def Let_def split: option.splits)

lemma dict_update_notified:
  "notified (dict_update t fs) = (case f_notified fs of None \<Rightarrow> notified t | Some v \<Rightarrow> v)"
  by (simp add: dict_update_def)

lemma dict_update_id:
  "id_t (dict_update t fs) = (case f_id fs of None \<Rightarrow> id_t t | Some v \<Rightarrow> v)"
  by (simp add: dict_update_def)

lemma update_task_keeps_notified:
  assumes "f_notified fs \<noteq> Some False" and "i < length (load f)" and "notified (load f ! i)"
  shows "notified (load (snd (update_task f s fs)) ! i)"
proof (cases "find_pos (load f) s")
  case None
  with assms(3) show ?thesis by (simp add: update_task_load)
next
  case (Some j)
  show ?thesis
  proof (cases "i = j")
    case True
    with assms Some show ?thesis
      by (cases "f_notified fs") (simp_all add: update_task_load dict_update_notified)
  next
    case False
    with assms(3) Some show ?thesis by (simp add: update_task_load)
  qed
qed

lemma update_task_length: "length (load (snd (update_task f s fs))) = length (load f)"
  by (simp add: update_task_load split: option.splits)

lemma update_task_ids:
  "f_id fs = None \<Longrightarrow> map id_t (load (snd (update_task f s fs))) = map id_t (load f)"
  by (auto simp: update_task_load map_update dict_update_id list_update_same_conv
      dest: find_pos_Some split: option.splits)

lemma get_due_reminders_ids: "map id_t (load (snd (get_due_reminders now f))) = map id_t (load f)"
  by (simp add: get_due_reminders_load set_notified_def)

lemma get_due_reminders_keeps_notified:
  "i < length (load f) \<Longrightarrow> notified (load f ! i) \<Longrightarrow>
     notified (load (snd (get_due_reminders now f)) ! i)"
  by (simp add: get_due_reminders_load set_notified_def)


lemma get_due_reminders_phases: "get_due_reminders now f = due_finish now (load f) f"
  by (simp add: get_due_reminders_def due_finish_def Let_def)

lemma due_finish_fst:
  "fst (due_finish now tasks f) = map set_notified (filter (is_due now) tasks)"
  by (simp add: due_finish_def Let_def)

lemma due_finish_loaded: "fst (due_finish now (load f) f') = fst (get_due_reminders now f)"
  by (simp add: due_finish_fst get_due_reminders_fst)

lemma run_serial_ab:
  "run [Load A, Finish A n1, Load B, Finish B n2] f =
     \<lparr> disk = snd (get_due_reminders n2 (snd (get_due_reminders n1 f))),
       caller_a = Returned (fst (get_due_reminders n1 f)),
       caller_b = Returned (fst (get_due_reminders n2 (snd (get_due_reminders n1 f)))) \<rparr>"
  by (simp add: run_def Let_def get_due_reminders_phases)

lemma run_serial_ba:
  "run [Load B, Finish B n2, Load A, Finish A n1] f =
     \<lparr> disk = snd (get_due_reminders n1 (snd (get_due_reminders n2 f))),
       caller_a = Returned (fst (get_due_reminders n1 (snd (get_due_reminders n2 f)))),
       caller_b = Returned (fst (get_due_reminders n2 f)) \<rparr>"
  by (simp add: run_def Let_def get_due_reminders_phases)

lemma run_overlap:
  assumes "evs \<in> {[Load A, Load B, Finish A n1, Finish B n2], [Load A, Load B, Finish B n2, Finish A n1],
                  [Load B, Load A, Finish A n1, Finish B n2], [Load B, Load A, Finish B n2, Finish A n1]}"
  shows "caller_a (run evs f) = Returned (fst (get_due_reminders n1 f)) \<and>
         caller_b (run evs f) = Returned (fst (get_due_reminders n2 f))"
  using assms by (auto simp: run_def Let_def due_finish_loaded)


lemma get_due_reminders_load_cong:
  "load g = load g' \<Longrightarrow>
     fst (get_due_reminders now g) = fst (get_due_reminders now g') \<and>
     load (snd (get_due_reminders now g)) = load (snd (get_due_reminders now g'))"
  by (simp add: get_due_reminders_fst get_due_reminders_load)

lemma due_reminders_calls_load_cong:
  "load g = load g' \<Longrightarrow>
     fst (due_reminders_calls nows g) = fst (due_reminders_calls nows g') \<and>
     load (snd (due_reminders_calls nows g)) = load (snd (due_reminders_calls nows g'))"
proof (induction nows arbitrary: g g')
  case Nil
  then show ?case by simp
next
  case (Cons now nows)
  have s: "fst (get_due_reminders now g) = fst (get_due_reminders now g')"
    "load (snd (get_due_reminders now g)) = load (snd (get_due_reminders now g'))"
    using get_due_reminders_load_cong [OF Cons.prems, of now] by blast+
  note ih = Cons.IH [OF s(2)]
  have "fst (due_reminders_calls (now # nows) g) =
      fst (get_due_reminders now g) # fst (due_reminders_calls nows (snd (get_due_reminders now g)))"
    by (simp add: Let_def)
  also have "\<dots> =
      fst (get_due_reminders now g') # fst (due_reminders_calls nows (snd (get_due_reminders now g')))"
    by (simp only: s(1) conjunct1 [OF ih])
  also have "\<dots> = fst (due_reminders_calls (now # nows) g')"
    by (simp add: Let_def)
  finally have a: "fst (due_reminders_calls (now # nows) g) = fst (due_reminders_calls (now # nows) g')" .
  have "load (snd (due_reminders_calls (now # nows) g)) =
      load (snd (due_reminders_calls nows (snd (get_due_reminders now g))))"
    by (simp add: Let_def)
  also have "\<dots> = load (snd (due_reminders_calls nows (snd (get_due_reminders now g'))))"
    by (rule conjunct2 [OF ih])
  also have "\<dots> = load (snd (due_reminders_calls (now # nows) g'))"
    by (simp add: Let_def)
  finally show ?case using a by simp
qed

lemma filter_without:
  "i < length xs \<Longrightarrow> \<not> P (xs ! i) \<Longrightarrow> filter P (take i xs @ drop (Suc i) xs) = filter P xs"
proof -
  assume a: "i < length xs" "\<not> P (xs ! i)"
  have "filter P xs = filter P (take i xs @ xs ! i # drop (Suc i) xs)"
    using a(1) by (simp add: id_take_nth_drop [symmetric])
  also have "\<dots> = filter P (take i xs @ drop (Suc i) xs)"
    using a(2) by simp
  finally show ?thesis by simp
qed

lemma get_due_reminders_without:
  assumes "i < length (load g)" and "\<not> is_due now (load g ! i)"
  shows "fst (get_due_reminders now g) =
           fst (get_due_reminders now (save (take i (load g) @ drop (Suc i) (load g))))"
    and "load (snd (get_due_reminders now g)) ! i = load g ! i"
    and "length (load (snd (get_due_reminders now g))) = length (load g)"
    and "take i (load (snd (get_due_reminders now g))) @ drop (Suc i) (load (snd (get_due_reminders now g))) =
           load (snd (get_due_reminders now (save (take i (load g) @ drop (Suc i) (load g)))))"
proof -
  show "fst (get_due_reminders now g) =
           fst (get_due_reminders now (save (take i (load g) @ drop (Suc i) (load g))))"
    by (simp only: get_due_reminders_fst load_save filter_without [where P = "is_due now", OF assms])
  show "load (snd (get_due_reminders now g)) ! i = load g ! i"
    using assms by (simp add: get_due_reminders_load)
  show "length (load (snd (get_due_reminders now g))) = length (load g)"
    by (simp add: get_due_reminders_load)
  show "take i (load (snd (get_due_reminders now g))) @ drop (Suc i) (load (snd (get_due_reminders now g))) =
           load (snd (get_due_reminders now (save (take i (load g) @ drop (Suc i) (load g)))))"
    by (simp add: get_due_reminders_load take_map drop_map)
qed

lemma due_reminders_calls_without:
  "i < length (load g) \<Longrightarrow> status (load g ! i) \<noteq> ''pending'' \<Longrightarrow>
     fst (due_reminders_calls nows g) =
       fst (due_reminders_calls nows (save (take i (load g) @ drop (Suc i) (load g)))) \<and>
     load (snd (due_reminders_calls nows g)) ! i = load g ! i"
proof (induction nows arbitrary: g)
  case Nil
  then show ?case by simp
next
  case (Cons now nows)
  let ?g1 = "snd (get_due_reminders now g)"
  let ?h = "save (take i (load g) @ drop (Suc i) (load g))"
  have nd: "\<not> is_due now (load g ! i)"
    using Cons.prems(2) by (simp add: is_due_def)
  note w = get_due_reminders_without [OF Cons.prems(1) nd]
  have len: "i < length (load ?g1)" using w(3) Cons.prems(1) by simp
  have st: "status (load ?g1 ! i) \<noteq> ''pending''" using w(2) Cons.prems(2) by simp
  from Cons.IH [OF len st]
  have ih: "fst (due_reminders_calls nows ?g1) =
      fst (due_reminders_calls nows (save (take i (load ?g1) @ drop (Suc i) (load ?g1))))"
    "load (snd (due_reminders_calls nows ?g1)) ! i = load ?g1 ! i"
    by simp_all
  have "load (save (take i (load ?g1) @ drop (Suc i) (load ?g1))) = load (snd (get_due_reminders now ?h))"
    using w(4) by simp
  then have c: "fst (due_reminders_calls nows (save (take i (load ?g1) @ drop (Suc i) (load ?g1)))) =
      fst (due_reminders_calls nows (snd (get_due_reminders now ?h)))"
    by (rule conjunct1 [OF due_reminders_calls_load_cong])
  have "fst (due_reminders_calls (now # nows) g) =
      fst (get_due_reminders now g) # fst (due_reminders_calls nows ?g1)"
    by (simp add: Let_def)
  also have "\<dots> = fst (get_due_reminders now ?h) #
      fst (due_reminders_calls nows (snd (get_due_reminders now ?h)))"
    by (simp only: w(1) ih(1) c)
  also have "\<dots> = fst (due_reminders_calls (now # nows) ?h)"
    by (simp add: Let_def)
  finally have a: "fst (due_reminders_calls (now # nows) g) = fst (due_reminders_calls (now # nows) ?h)" .
  have "load (snd (due_reminders_calls (now # nows) g)) ! i =
      load (snd (due_reminders_calls nows ?g1)) ! i"
    by (simp add: Let_def)
  also have "\<dots> = load ?g1 ! i" by (rule ih(2))
  also have "\<dots> = load g ! i" by (rule w(2))
  finally show ?case using a by simp
qed

lemma index_where_first: "index_where P xs = Some i \<Longrightarrow> j < i \<Longrightarrow> \<not> P (xs ! j)"
proof (induction xs arbitrary: i j)
  case Nil
  then show ?case by simp
next
  case (Cons x xs)
  show ?case
  proof (cases "P x")
    case True
    with Cons.prems show ?thesis by simp
  next
    case False
    with Cons.prems obtain k where k: "index_where P xs = Some k" "i = Suc k"
      by auto
    show ?thesis
    proof (cases j)
      case 0
      with False show ?thesis by simp
    next
      case (Suc m)
      with Cons.prems(2) k(2) have "m < k" by simp
      with Cons.IH [OF k(1)] Suc show ?thesis by simp
    qed
  qed
qed

lemma find_pos_first:
  assumes "find_pos tasks s = Some i" and "j < i"
  shows "tasks ! j \<noteq> tasks ! i"
proof -
  from assms(1) consider
      "index_where (\<lambda>t. id_t t = s) tasks = Some i"
    | "index_where (\<lambda>t. startswith (id_t t) s) tasks = Some i"
    by (auto simp: find_pos_def Let_def split: option.splits if_splits)
  then show ?thesis
  proof cases
    case 1
    from index_where_Some [OF 1] index_where_first [OF 1 assms(2)] show ?thesis by auto
  next
    case 2
    from index_where_Some [OF 2] index_where_first [OF 2 assms(2)] show ?thesis by auto
  qed
qed

lemma dict_update_completed:
  "dict_update u (no_fields\<lparr>f_status := Some ''completed''\<rparr>) = u\<lparr>status := ''completed''\<rparr>"
  by (simp add: dict_update_def no_fields_def)

lemma complete_task_found:
  assumes "get_task f s = Some u"
  shows "\<exists>i < length (load f). load f ! i = u \<and> (\<forall>j < i. load f ! j \<noteq> u) \<and>
           complete_task f s =
             (Some (u\<lparr>status := ''completed''\<rparr>), save ((load f)[i := u\<lparr>status := ''completed''\<rparr>]))"
proof -
  from assms have "map_option (nth (load f)) (find_pos (load f) s) = Some u"
    by (simp add: get_task_find_task find_task_pos)
  then obtain i where i: "find_pos (load f) s = Some i" "load f ! i = u"
    by auto
  have len: "i < length (load f)" using i(1) by (rule find_pos_Some)
  have first: "\<forall>j < i. load f ! j \<noteq> u"
    using find_pos_first [OF i(1)] i(2) by simp
  have "complete_task f s =
      (Some (u\<lparr>status := ''completed''\<rparr>), save ((load f)[i := u\<lparr>status := ''completed''\<rparr>]))"
    using i by (simp add: complete_task_def update_task_def dict_update_completed Let_def)
  with len i(2) first show ?thesis by blast
qed

lemma complete_task_not_found: "get_task f s = None \<Longrightarrow> complete_task f s = (None, f)"
  by (simp add: get_task_find_task find_task_pos complete_task_def update_task_def)

lemma due_finish_load:
  "load (snd (due_finish now tasks g)) =
     (if filter (is_due now) tasks = [] then load g
      else map (\<lambda>t. if is_due now t then set_notified t else t) tasks)"
  by (simp add: due_finish_def Let_def)


section \<open>Identifier resolution by \<^verbatim>\<open>get_task\<close>\<close>

text \<open>
  C3. For every content of the file and every lookup string \<open>s\<close>: if some task has
  id \<open>s\<close>, \<open>get_task\<close> returns a task of the store with id \<open>s\<close> (the first one in
  storage order); if none has, \<open>s\<close> has at least 4 characters and exactly one task's id
  starts with \<open>s\<close>, it returns that task \<open>u\<close>; if none has and either \<open>s\<close> is shorter
  than 4 characters or the number of tasks whose id starts with \<open>s\<close> is not one (zero,
  or two and more), it returns \<open>None\<close>.
\<close>

theorem get_task_resolution:
  "((\<exists>t \<in> set (load f). id_t t = s) \<longrightarrow>
      get_task f s = find (\<lambda>t. id_t t = s) (load f) \<and>
      (\<exists>t \<in> set (load f). get_task f s = Some t \<and> id_t t = s))
   \<and> ((\<forall>t \<in> set (load f). id_t t \<noteq> s) \<and> length s \<ge> 4 \<and>
        filter (\<lambda>t. startswith (id_t t) s) (load f) = [u] \<longrightarrow> get_task f s = Some u)
   \<and> ((\<forall>t \<in> set (load f). id_t t \<noteq> s) \<and>
        (length s < 4 \<or> length (filter (\<lambda>t. startswith (id_t t) s) (load f)) \<noteq> 1)
        \<longrightarrow> get_task f s = None)"
proof (intro conjI impI)
  assume "\<exists>t \<in> set (load f). id_t t = s"
  then obtain t where t: "find (\<lambda>t. id_t t = s) (load f) = Some t"
    by (cases "find (\<lambda>t. id_t t = s) (load f)") (auto simp: find_None_iff)
  then show "get_task f s = find (\<lambda>t. id_t t = s) (load f)"
    by (simp add: get_task_def)
  from t have "t \<in> set (load f)" "id_t t = s"
    by (auto simp: find_Some_iff)
  with t show "\<exists>t \<in> set (load f). get_task f s = Some t \<and> id_t t = s"
    by (auto simp: get_task_def)
next
  assume "(\<forall>t \<in> set (load f). id_t t \<noteq> s) \<and> length s \<ge> 4 \<and>
        filter (\<lambda>t. startswith (id_t t) s) (load f) = [u]"
  then show "get_task f s = Some u"
    by (simp add: get_task_def find_None_iff[THEN iffD2])
next
  assume "(\<forall>t \<in> set (load f). id_t t \<noteq> s) \<and>
        (length s < 4 \<or> length (filter (\<lambda>t. startswith (id_t t) s) (load f)) \<noteq> 1)"
  then show "get_task f s = None"
    by (auto simp: get_task_def find_None_iff[THEN iffD2])
qed

text \<open>
  The specification's example: with ids \<^verbatim>\<open>abc12345\<close> and \<^verbatim>\<open>abc99999\<close> in the store, the
  full id and the prefix \<^verbatim>\<open>abc1\<close> find the first task, \<^verbatim>\<open>abc\<close> is too short, and
  \<^verbatim>\<open>abcd\<close> matches nothing.
\<close>

theorem get_task_resolution_witness:
  "get_task (Json [task_past, task_future]) ''abc12345'' = Some task_past \<and>
   get_task (Json [task_past, task_future]) ''abc1'' = Some task_past \<and>
   get_task (Json [task_past, task_future]) ''abc'' = None \<and>
   get_task (Json [task_past, task_future]) ''abcd'' = None"
  using get_task_resolution [of "Json [task_past, task_future]" "''abc12345''" task_past]
    get_task_resolution [of "Json [task_past, task_future]" "''abc1''" task_past]
    get_task_resolution [of "Json [task_past, task_future]" "''abc''" task_past]
    get_task_resolution [of "Json [task_past, task_future]" "''abcd''" task_past]
  by (simp add: load_def startswith_def task_past_def task_future_def)

section \<open>\<^verbatim>\<open>get_due_reminders\<close> without a due task\<close>

text \<open>
  C9. When no task of the store is selected (none is pending with a non-empty
  \<open>remind_at\<close> not after \<open>now\<close> and \<open>notified\<close> false), \<open>get_due_reminders\<close> returns the
  empty list and the file it leaves is the file it found: \<^verbatim>\<open>_save\<close> is not called.
\<close>

theorem due_empty_no_write:
  "filter (\<lambda>t. status t = ''pending'' \<and>
                (\<exists>r. remind_at t = Some r \<and> r \<noteq> [] \<and> r \<le> now) \<and> \<not> notified t) (load f) = []
   \<Longrightarrow> get_due_reminders now f = ([], f)"
proof -
  assume "filter (\<lambda>t. status t = ''pending'' \<and>
                (\<exists>r. remind_at t = Some r \<and> r \<noteq> [] \<and> r \<le> now) \<and> \<not> notified t) (load f) = []"
  then have "filter (is_due now) (load f) = []"
    by (simp only: is_due_spec)
  then show ?thesis
    by (simp add: get_due_reminders_def)
qed

theorem due_empty_no_write_witness:
  "get_due_reminders now0 (Json [task_future, task_done]) = ([], Json [task_future, task_done])"
  using due_empty_no_write [of now0 "Json [task_future, task_done]"]
  by (simp add: load_def now0_def task_future_def task_done_def)

section \<open>\<^verbatim>\<open>list_tasks\<close> with an unknown filter\<close>

text \<open>
  C10. For a filter string that is none of \<^verbatim>\<open>all\<close>, \<^verbatim>\<open>pending\<close>, \<^verbatim>\<open>completed\<close>,
  \<^verbatim>\<open>overdue\<close>, the store's \<open>list_tasks\<close> falls through to its last line and returns
  every record, as it does for \<^verbatim>\<open>all\<close>; the adapter \<open>handle\<close> refuses the same string
  with its failure message and does not reach the store. For one of the four names the
  adapter answers with what the store's \<open>list_tasks\<close> returns.
\<close>

theorem list_unknown_filter:
  "(status_filter \<notin> {''all'', ''pending'', ''completed'', ''overdue''} \<longrightarrow>
      list_tasks now f status_filter = load f \<and>
      list_tasks now f status_filter = list_tasks now f ''all'' \<and>
      handle now f (Some status_filter) =
        failure (''Invalid filter '' @ [CHR 0x27] @ status_filter @ [CHR 0x27] @
                  ''. Must be one of: all, completed, overdue, pending.''))
   \<and> (status_filter \<in> {''all'', ''pending'', ''completed'', ''overdue''} \<longrightarrow>
      handle now f (Some status_filter) =
        success status_filter (length (list_tasks now f status_filter))
          (list_tasks now f status_filter))"
proof (intro conjI impI)
  assume unknown: "status_filter \<notin> {''all'', ''pending'', ''completed'', ''overdue''}"
  then show through: "list_tasks now f status_filter = load f"
    by (simp add: list_tasks_def)
  have "list_tasks now f ''all'' = load f"
    by (simp add: list_tasks_def)
  with through show "list_tasks now f status_filter = list_tasks now f ''all''"
    by simp
  from unknown have "status_filter \<notin> VALID_FILTERS"
    by (simp add: VALID_FILTERS_def)
  then show "handle now f (Some status_filter) =
        failure (''Invalid filter '' @ [CHR 0x27] @ status_filter @ [CHR 0x27] @
                  ''. Must be one of: all, completed, overdue, pending.'')"
    by (simp add: handle_def)
next
  assume "status_filter \<in> {''all'', ''pending'', ''completed'', ''overdue''}"
  then have "status_filter \<in> VALID_FILTERS"
    by (simp add: VALID_FILTERS_def)
  then show "handle now f (Some status_filter) =
        success status_filter (length (list_tasks now f status_filter))
          (list_tasks now f status_filter)"
    by (simp add: handle_def Let_def)
qed

theorem list_unknown_filter_witness:
  "''done'' \<notin> {''all'', ''pending'', ''completed'', ''overdue''} \<and>
   list_tasks now0 (Json [task_past, task_done]) ''done'' = [task_past, task_done] \<and>
   list_tasks now0 (Json [task_past, task_done]) ''all'' = [task_past, task_done] \<and>
   handle now0 (Json [task_past, task_done]) (Some ''done'') =
     failure (''Invalid filter '' @ [CHR 0x27] @ ''done'' @ [CHR 0x27] @
              ''. Must be one of: all, completed, overdue, pending.'') \<and>
   handle now0 (Json [task_past, task_done]) (Some ''completed'') =
     success ''completed'' 1 [task_done]"
  using list_unknown_filter [of "''done''" now0 "Json [task_past, task_done]"]
    list_unknown_filter [of "''completed''" now0 "Json [task_past, task_done]"]
  by (simp add: load_def list_tasks_def task_past_def task_done_def)

section \<open>Due reminders are reported once\<close>

text \<open>
  C1. For any file content and any time \<open>now\<close>, \<open>get_due_reminders\<close> returns, in storage
  order, exactly the tasks that are pending, have a non-empty \<open>remind_at\<close> not after
  \<open>now\<close> and are not yet notified (``set'' is the truth test of \<^verbatim>\<open>t.get("remind_at")\<close>:
  neither \<^verbatim>\<open>None\<close> nor the empty string); the dictionaries it returns are the selected
  ones after the flag was set, so they carry \<open>notified = True\<close>. The list kept in the
  file afterwards is the old one with \<open>notified\<close> set on exactly the selected tasks:
  every returned task is in it, notified. No task returned by one call is returned by
  the next call, whatever the time of that call. In particular, after \<open>add_task\<close> with a
  \<open>remind_at\<close> that is not after \<open>now\<close>, the first call returns the new task (last in
  its result), and the second call returns neither it nor its notified form.
\<close>

theorem due_reminders_once:
  "fst (get_due_reminders now f) =
     map (\<lambda>t. t\<lparr>notified := True\<rparr>)
       (filter (\<lambda>t. status t = ''pending'' \<and>
                    (\<exists>r. remind_at t = Some r \<and> r \<noteq> [] \<and> r \<le> now) \<and> \<not> notified t) (load f))
   \<and> load (snd (get_due_reminders now f)) =
     map (\<lambda>t. if status t = ''pending'' \<and>
                  (\<exists>r. remind_at t = Some r \<and> r \<noteq> [] \<and> r \<le> now) \<and> \<not> notified t
               then t\<lparr>notified := True\<rparr> else t) (load f)
   \<and> (\<forall>t \<in> set (fst (get_due_reminders now f)).
         notified t \<and> t \<in> set (load (snd (get_due_reminders now f))))
   \<and> set (fst (get_due_reminders now f)) \<inter>
       set (fst (get_due_reminders now2 (snd (get_due_reminders now f)))) = {}
   \<and> (r \<noteq> [] \<and> r \<le> now \<longrightarrow>
        (let a = add_task uuid_hex created title' description' due (Some r) f0;
             d1 = get_due_reminders now (snd a);
             d2 = get_due_reminders now2 (snd d1)
         in fst d1 \<noteq> [] \<and> last (fst d1) = (fst a)\<lparr>notified := True\<rparr> \<and>
            last (load (snd d1)) = (fst a)\<lparr>notified := True\<rparr> \<and>
            (fst a)\<lparr>notified := True\<rparr> \<notin> set (fst d2) \<and> fst a \<notin> set (fst d2)))"
proof (intro conjI impI ballI)
  show "fst (get_due_reminders now f) =
     map (\<lambda>t. t\<lparr>notified := True\<rparr>)
       (filter (\<lambda>t. status t = ''pending'' \<and>
                    (\<exists>r. remind_at t = Some r \<and> r \<noteq> [] \<and> r \<le> now) \<and> \<not> notified t) (load f))"
    using get_due_reminders_fst [of now f]
    by (simp only: is_due_spec) (simp add: set_notified_def [abs_def])
  show "load (snd (get_due_reminders now f)) =
     map (\<lambda>t. if status t = ''pending'' \<and>
                  (\<exists>r. remind_at t = Some r \<and> r \<noteq> [] \<and> r \<le> now) \<and> \<not> notified t
               then t\<lparr>notified := True\<rparr> else t) (load f)"
    using get_due_reminders_load [of now f]
    by (simp only: is_due_spec) (simp add: set_notified_def [abs_def])
  show "set (fst (get_due_reminders now f)) \<inter>
       set (fst (get_due_reminders now2 (snd (get_due_reminders now f)))) = {}"
    by (rule due_twice_disjoint)
next
  fix t assume "t \<in> set (fst (get_due_reminders now f))"
  then obtain y where y: "y \<in> set (load f)" "is_due now y" "t = set_notified y"
    by (auto simp: get_due_reminders_fst)
  show "notified t" using y(3) by (simp add: set_notified_def)
  show "t \<in> set (load (snd (get_due_reminders now f)))"
    unfolding get_due_reminders_load using y by force
next
  assume past: "r \<noteq> [] \<and> r \<le> now"
  define a where "a = add_task uuid_hex created title' description' due (Some r) f0"
  define d1 where "d1 = get_due_reminders now (snd a)"
  define d2 where "d2 = get_due_reminders now2 (snd d1)"
  have la: "load (snd a) = load f0 @ [fst a]"
    unfolding a_def by (rule add_task_load)
  have due: "is_due now (fst a)"
    using past by (simp add: a_def add_task_def is_due_def Let_def)
  have f1: "fst d1 = map set_notified (filter (is_due now) (load f0)) @ [set_notified (fst a)]"
    unfolding d1_def get_due_reminders_fst la using due by simp
  have l1: "load (snd d1) =
      map (\<lambda>t. if is_due now t then set_notified t else t) (load f0) @ [set_notified (fst a)]"
    unfolding d1_def get_due_reminders_load la using due by simp
  have in1: "set_notified (fst a) \<in> set (fst d1)"
    using f1 by simp
  have "set (fst d1) \<inter> set (fst d2) = {}"
    unfolding d1_def d2_def by (rule due_twice_disjoint)
  with in1 have out2: "set_notified (fst a) \<notin> set (fst d2)"
    by blast
  have "\<forall>t \<in> set (fst d2). notified t"
    unfolding d2_def get_due_reminders_fst by (simp add: set_notified_def)
  moreover have "\<not> notified (fst a)"
    by (simp add: a_def add_task_def Let_def)
  ultimately have out2': "fst a \<notin> set (fst d2)"
    by blast
  have "fst d1 \<noteq> [] \<and> last (fst d1) = (fst a)\<lparr>notified := True\<rparr> \<and>
        last (load (snd d1)) = (fst a)\<lparr>notified := True\<rparr> \<and>
        (fst a)\<lparr>notified := True\<rparr> \<notin> set (fst d2) \<and> fst a \<notin> set (fst d2)"
    using f1 l1 out2 out2' by (simp add: set_notified_def)
  then show "let a = add_task uuid_hex created title' description' due (Some r) f0;
             d1 = get_due_reminders now (snd a);
             d2 = get_due_reminders now2 (snd d1)
         in fst d1 \<noteq> [] \<and> last (fst d1) = (fst a)\<lparr>notified := True\<rparr> \<and>
            last (load (snd d1)) = (fst a)\<lparr>notified := True\<rparr> \<and>
            (fst a)\<lparr>notified := True\<rparr> \<notin> set (fst d2) \<and> fst a \<notin> set (fst d2)"
    unfolding a_def d1_def d2_def Let_def .
qed

theorem due_reminders_once_witness:
  "''2020-01-01T00:00:00'' \<noteq> [] \<and> ''2020-01-01T00:00:00'' \<le> now0 \<and>
   fst (add_task ''1b4e28ba2fa141d2883f0016d3cca427'' now0 ''Past reminder'' [] None
          (Some ''2020-01-01T00:00:00'') (Json [task_future])) =
     \<lparr> id_t = ''1b4e28ba'', title = ''Past reminder'', description = [], due_at = None,
       remind_at = Some ''2020-01-01T00:00:00'', status = ''pending'', notified = False,
       created_at = now0 \<rparr> \<and>
   fst (get_due_reminders now0
          (snd (add_task ''1b4e28ba2fa141d2883f0016d3cca427'' now0 ''Past reminder'' [] None
                  (Some ''2020-01-01T00:00:00'') (Json [task_future])))) =
     [\<lparr> id_t = ''1b4e28ba'', title = ''Past reminder'', description = [], due_at = None,
        remind_at = Some ''2020-01-01T00:00:00'', status = ''pending'', notified = True,
        created_at = now0 \<rparr>] \<and>
   fst (get_due_reminders now0
          (snd (get_due_reminders now0
            (snd (add_task ''1b4e28ba2fa141d2883f0016d3cca427'' now0 ''Past reminder'' [] None
                    (Some ''2020-01-01T00:00:00'') (Json [task_future])))))) = []"
  using due_reminders_once [where now = now0 and ?now2.0 = now0
      and r = "''2020-01-01T00:00:00''" and uuid_hex = "''1b4e28ba2fa141d2883f0016d3cca427''"
      and created = now0 and title' = "''Past reminder''" and description' = "[]"
      and due = None and ?f0.0 = "Json [task_future]"
      and f = "snd (add_task ''1b4e28ba2fa141d2883f0016d3cca427'' now0 ''Past reminder'' [] None
                  (Some ''2020-01-01T00:00:00'') (Json [task_future]))"]
  by (simp add: add_task_def get_due_reminders_def is_due_def set_notified_def load_def save_def
      now0_def task_future_def Let_def)


section \<open>Completed tasks are never due\<close>

text \<open>
  C6, as the code has it. For any file content, every task returned by
  \<open>get_due_reminders\<close> is pending, so none is completed; a completed task of the store
  is not in the result, neither as it is nor with the flag set, whatever its
  \<open>remind_at\<close> and \<open>notified\<close> are. \<open>complete_task\<close> marks the task that \<open>get_task\<close>
  resolves for the same string \<open>s\<close>: when \<open>get_task\<close> finds nothing it writes nothing;
  when \<open>get_task\<close> finds \<open>u\<close>, it returns \<open>u\<close> with status completed and saves the list
  with that record in the place \<open>i\<close> of \<open>u\<close> (the first place holding \<open>u\<close>), every other
  place as it was. Then, as long as nothing else writes the file, any number of
  \<open>get_due_reminders\<close> calls at any times \<open>nows\<close> return what the same calls return on
  the store without place \<open>i\<close>, return pending tasks only, and leave the completed
  record in its place.
\<close>

theorem completed_never_due:
  "(\<forall>d \<in> set (fst (get_due_reminders now f)). status d = ''pending'' \<and> status d \<noteq> ''completed'')
   \<and> (\<forall>c \<in> set (load f). status c = ''completed'' \<longrightarrow>
         c \<notin> set (fst (get_due_reminders now f)) \<and>
         c\<lparr>notified := True\<rparr> \<notin> set (fst (get_due_reminders now f)))
   \<and> (get_task f s = None \<longrightarrow> complete_task f s = (None, f))
   \<and> (get_task f s = Some u \<longrightarrow>
        (\<exists>i < length (load f).
            load f ! i = u \<and> (\<forall>j < i. load f ! j \<noteq> u) \<and>
            complete_task f s =
              (Some (u\<lparr>status := ''completed''\<rparr>),
               save ((load f)[i := u\<lparr>status := ''completed''\<rparr>])) \<and>
            fst (due_reminders_calls nows (snd (complete_task f s))) =
              fst (due_reminders_calls nows (save (take i (load f) @ drop (Suc i) (load f)))) \<and>
            load (snd (due_reminders_calls nows (snd (complete_task f s)))) ! i =
              u\<lparr>status := ''completed''\<rparr> \<and>
            (\<forall>due \<in> set (fst (due_reminders_calls nows (snd (complete_task f s)))).
                u\<lparr>status := ''completed''\<rparr> \<notin> set due \<and>
                (\<forall>d \<in> set due. status d = ''pending''))))"
proof (intro conjI impI ballI)
  fix d assume "d \<in> set (fst (get_due_reminders now f))"
  then have p: "status d = ''pending''" by (rule get_due_reminders_pending)
  then show "status d = ''pending''" .
  from p show "status d \<noteq> ''completed''" by simp
next
  fix c :: task
  assume "c \<in> set (load f)" and c: "status c = ''completed''"
  show "c \<notin> set (fst (get_due_reminders now f))"
    using get_due_reminders_pending [of c now f] c by auto
  show "c\<lparr>notified := True\<rparr> \<notin> set (fst (get_due_reminders now f))"
    using get_due_reminders_pending [of "c\<lparr>notified := True\<rparr>" now f] c by auto
next
  assume "get_task f s = None"
  then show "complete_task f s = (None, f)" by (rule complete_task_not_found)
next
  assume "get_task f s = Some u"
  then obtain i where i: "i < length (load f)" "load f ! i = u" "\<forall>j < i. load f ! j \<noteq> u"
    and c: "complete_task f s =
        (Some (u\<lparr>status := ''completed''\<rparr>), save ((load f)[i := u\<lparr>status := ''completed''\<rparr>]))"
    using complete_task_found by blast
  let ?t = "u\<lparr>status := ''completed''\<rparr>"
  let ?g = "save ((load f)[i := ?t])"
  have g: "snd (complete_task f s) = ?g" using c by simp
  have lg: "load ?g = (load f)[i := ?t]" by simp
  have len: "i < length (load ?g)" using i(1) by simp
  have at: "load ?g ! i = ?t" using i(1) by simp
  have st: "status (load ?g ! i) \<noteq> ''pending''" unfolding at by simp
  have rm: "take i (load ?g) @ drop (Suc i) (load ?g) = take i (load f) @ drop (Suc i) (load f)"
    by simp
  note w = due_reminders_calls_without [OF len st, of nows]
  have r1: "fst (due_reminders_calls nows (snd (complete_task f s))) =
      fst (due_reminders_calls nows (save (take i (load f) @ drop (Suc i) (load f))))"
    unfolding g using conjunct1 [OF w] unfolding rm .
  have r2: "load (snd (due_reminders_calls nows (snd (complete_task f s)))) ! i = ?t"
    unfolding g using conjunct2 [OF w] unfolding at .
  have r3: "\<forall>due \<in> set (fst (due_reminders_calls nows (snd (complete_task f s)))).
      ?t \<notin> set due \<and> (\<forall>d \<in> set due. status d = ''pending'')"
  proof (intro ballI conjI)
    fix due assume due: "due \<in> set (fst (due_reminders_calls nows (snd (complete_task f s))))"
    show "?t \<notin> set due"
      using due_reminders_calls_pending [OF due, of ?t] by auto
    fix d assume "d \<in> set due"
    with due show "status d = ''pending''" by (rule due_reminders_calls_pending)
  qed
  from i c r1 r2 r3
  show "\<exists>i < length (load f).
            load f ! i = u \<and> (\<forall>j < i. load f ! j \<noteq> u) \<and>
            complete_task f s =
              (Some (u\<lparr>status := ''completed''\<rparr>),
               save ((load f)[i := u\<lparr>status := ''completed''\<rparr>])) \<and>
            fst (due_reminders_calls nows (snd (complete_task f s))) =
              fst (due_reminders_calls nows (save (take i (load f) @ drop (Suc i) (load f)))) \<and>
            load (snd (due_reminders_calls nows (snd (complete_task f s)))) ! i =
              u\<lparr>status := ''completed''\<rparr> \<and>
            (\<forall>due \<in> set (fst (due_reminders_calls nows (snd (complete_task f s)))).
                u\<lparr>status := ''completed''\<rparr> \<notin> set due \<and>
                (\<forall>d \<in> set due. status d = ''pending''))"
    by blast
qed


theorem completed_never_due_witness:
  "get_task (Json [task_past, task_future]) ''abc1'' = Some task_past \<and>
   fst (complete_task (Json [task_past, task_future]) ''abc1'') =
     Some (task_past\<lparr>status := ''completed''\<rparr>) \<and>
   complete_task (Json [task_past, task_future]) ''abc1'' =
     (Some (task_past\<lparr>status := ''completed''\<rparr>),
      Json [task_past\<lparr>status := ''completed''\<rparr>, task_future]) \<and>
   fst (get_due_reminders now0 (Json [task_past, task_future])) = [task_past\<lparr>notified := True\<rparr>] \<and>
   due_reminders_calls [now0, later] (Json [task_past\<lparr>status := ''completed''\<rparr>, task_future]) =
     ([[], [task_future\<lparr>notified := True\<rparr>]],
      Json [task_past\<lparr>status := ''completed''\<rparr>, task_future\<lparr>notified := True\<rparr>]) \<and>
   fst (due_reminders_calls [now0, later] (Json [task_future])) =
     [[], [task_future\<lparr>notified := True\<rparr>]] \<and>
   fst (get_due_reminders now0 (Json [task_done])) = []"
proof -
  have found: "get_task (Json [task_past, task_future]) ''abc1'' = Some task_past"
    by (simp add: get_task_def startswith_def load_def task_past_def task_future_def)
  from completed_never_due [where f = "Json [task_past, task_future]" and s = "''abc1''"
      and u = task_past and nows = "[now0, later]" and now = now0] found
  obtain i where "complete_task (Json [task_past, task_future]) ''abc1'' =
      (Some (task_past\<lparr>status := ''completed''\<rparr>),
       save ((load (Json [task_past, task_future]))[i := task_past\<lparr>status := ''completed''\<rparr>]))"
    by blast
  then have returned: "fst (complete_task (Json [task_past, task_future]) ''abc1'') =
      Some (task_past\<lparr>status := ''completed''\<rparr>)"
    by simp
  have rest: "complete_task (Json [task_past, task_future]) ''abc1'' =
     (Some (task_past\<lparr>status := ''completed''\<rparr>),
      Json [task_past\<lparr>status := ''completed''\<rparr>, task_future]) \<and>
   fst (get_due_reminders now0 (Json [task_past, task_future])) = [task_past\<lparr>notified := True\<rparr>] \<and>
   due_reminders_calls [now0, later] (Json [task_past\<lparr>status := ''completed''\<rparr>, task_future]) =
     ([[], [task_future\<lparr>notified := True\<rparr>]],
      Json [task_past\<lparr>status := ''completed''\<rparr>, task_future\<lparr>notified := True\<rparr>]) \<and>
   fst (due_reminders_calls [now0, later] (Json [task_future])) =
     [[], [task_future\<lparr>notified := True\<rparr>]] \<and>
   fst (get_due_reminders now0 (Json [task_done])) = []"
    by (simp add: complete_task_def update_task_def find_pos_def dict_update_def
      no_fields_def startswith_def get_due_reminders_def is_due_def set_notified_def load_def
      save_def now0_def later_def task_past_def task_future_def task_done_def Let_def)
  from found returned rest show ?thesis by (intro conjI) (elim conjE, assumption)+
qed

text \<open>
  C6, as stated, fails when calls overlap. A \<open>get_due_reminders\<close> call has loaded the
  two tasks (line 117); \<open>complete_task\<close> then completes the second one; the first call
  goes on with the list it loaded (lines 118-130, \<open>due_finish\<close>), selects the first
  task and saves its own list, in which the second task is still pending. A later call
  returns the task that was completed.
\<close>

theorem completion_undone_by_stale_save:
  "load (Json [task_past, task_future]) = [task_past, task_future] \<and>
   complete_task (Json [task_past, task_future]) ''abc99999'' =
     (Some (task_future\<lparr>status := ''completed''\<rparr>),
      Json [task_past, task_future\<lparr>status := ''completed''\<rparr>]) \<and>
   due_finish now0 [task_past, task_future]
       (Json [task_past, task_future\<lparr>status := ''completed''\<rparr>]) =
     ([task_past\<lparr>notified := True\<rparr>], Json [task_past\<lparr>notified := True\<rparr>, task_future]) \<and>
   fst (get_due_reminders later (Json [task_past\<lparr>notified := True\<rparr>, task_future])) =
     [task_future\<lparr>notified := True\<rparr>]"
  by (simp add: complete_task_def update_task_def find_pos_def dict_update_def no_fields_def
      due_finish_def get_due_reminders_def is_due_def set_notified_def load_def save_def
      now0_def later_def task_past_def task_future_def Let_def)

section \<open>The filters \<^verbatim>\<open>overdue\<close> and \<^verbatim>\<open>all\<close>\<close>

text \<open>
  C7. For any file content, \<open>list_tasks\<close> with \<^verbatim>\<open>overdue\<close> returns exactly the pending tasks
  whose \<open>due_at\<close> is set (neither \<^verbatim>\<open>None\<close> nor the empty string, the truth test of
  \<^verbatim>\<open>t.get("due_at")\<close>) and strictly below \<open>now\<close> in the order of strings; no task it
  returns is completed. With \<^verbatim>\<open>all\<close> it returns the loaded list as it is, and since
  \<open>add_task\<close> appends, that is the order in which the tasks were added.
\<close>

theorem list_overdue_all:
  "list_tasks now f ''overdue'' =
     filter (\<lambda>t. status t = ''pending'' \<and> (\<exists>d. due_at t = Some d \<and> d \<noteq> [] \<and> d < now)) (load f)
   \<and> (\<forall>t \<in> set (list_tasks now f ''overdue''). status t \<noteq> ''completed'')
   \<and> list_tasks now f ''all'' = load f
   \<and> list_tasks now (snd (add_task uuid_hex created title' description' due remind f)) ''all'' =
       list_tasks now f ''all'' @ [fst (add_task uuid_hex created title' description' due remind f)]"
proof (intro conjI ballI)
  show ov: "list_tasks now f ''overdue'' =
     filter (\<lambda>t. status t = ''pending'' \<and> (\<exists>d. due_at t = Some d \<and> d \<noteq> [] \<and> d < now)) (load f)"
    unfolding list_tasks_def Let_def
    by (auto intro!: filter_cong split: option.splits)
  show "list_tasks now f ''all'' = load f"
    by (simp add: list_tasks_def)
  show "list_tasks now (snd (add_task uuid_hex created title' description' due remind f)) ''all'' =
       list_tasks now f ''all'' @ [fst (add_task uuid_hex created title' description' due remind f)]"
    by (simp add: list_tasks_def add_task_load)
  fix t assume "t \<in> set (list_tasks now f ''overdue'')"
  then have "status t = ''pending''"
    unfolding ov by simp
  then show "status t \<noteq> ''completed''" by simp
qed

theorem list_overdue_all_witness:
  "list_tasks now0 (Json [task_past, task_future, task_done]) ''overdue'' = [task_past] \<and>
   due_at task_done = due_at task_past \<and> status task_done = ''completed'' \<and>
   list_tasks now0 (Json [task_past, task_future, task_done]) ''all'' =
     [task_past, task_future, task_done]"
  using list_overdue_all [where now = now0 and f = "Json [task_past, task_future, task_done]"]
  by (simp add: load_def now0_def task_past_def task_future_def task_done_def)


section \<open>A file that does not decode\<close>

text \<open>
  The case that \<^verbatim>\<open>_load\<close> catches: when \<^verbatim>\<open>json.load\<close> raises \<^verbatim>\<open>JSONDecodeError\<close> on the
  text of the file, every operation returns what it returns on a file holding the empty
  list: \<open>get_task\<close> finds nothing, \<open>list_tasks\<close> is empty for every filter,
  \<open>update_task\<close>, \<open>complete_task\<close> and \<open>delete_task\<close> report not found and leave the
  file alone, \<open>get_due_reminders\<close> returns nothing and leaves the file alone, and
  \<open>add_task\<close> writes a file that holds just the new task.
\<close>

lemma malformed_as_empty:
  "load Malformed = [] \<and> load Malformed = load (Json [])
   \<and> get_task Malformed s = None \<and> get_task Malformed s = get_task (Json []) s
   \<and> list_tasks now Malformed flt = [] \<and> list_tasks now Malformed flt = list_tasks now (Json []) flt
   \<and> update_task Malformed s fs = (None, Malformed)
   \<and> fst (update_task Malformed s fs) = fst (update_task (Json []) s fs)
   \<and> complete_task Malformed s = (None, Malformed)
   \<and> fst (complete_task Malformed s) = fst (complete_task (Json []) s)
   \<and> delete_task Malformed s = (None, Malformed)
   \<and> fst (delete_task Malformed s) = fst (delete_task (Json []) s)
   \<and> get_due_reminders now Malformed = ([], Malformed)
   \<and> fst (get_due_reminders now Malformed) = fst (get_due_reminders now (Json []))
   \<and> add_task uuid_hex created title' description' due remind Malformed =
       add_task uuid_hex created title' description' due remind (Json [])
   \<and> load (snd (add_task uuid_hex created title' description' due remind Malformed)) =
       [fst (add_task uuid_hex created title' description' due remind Malformed)]"
proof -
  have l: "load Malformed = []" "load (Json []) = []"
    by (simp_all add: load_def)
  have p: "find_pos [] s = None" "find_task [] s = None"
    by (simp_all add: find_pos_def find_task_def)
  have g: "get_task Malformed s = None" "get_task (Json []) s = None"
    by (simp_all add: get_task_def l)
  have li: "list_tasks now Malformed flt = []" "list_tasks now (Json []) flt = []"
    by (simp_all add: list_tasks_def l)
  have u: "update_task Malformed s fs' = (None, Malformed)"
    "update_task (Json []) s fs' = (None, Json [])" for fs'
    by (simp_all add: update_task_def l p)
  have d: "delete_task Malformed s = (None, Malformed)" "delete_task (Json []) s = (None, Json [])"
    by (simp_all add: delete_task_def l p)
  have r: "get_due_reminders now Malformed = ([], Malformed)"
    "get_due_reminders now (Json []) = ([], Json [])"
    by (simp_all add: get_due_reminders_def l)
  have a: "add_task uuid_hex created title' description' due remind Malformed =
       add_task uuid_hex created title' description' due remind (Json [])"
    by (simp add: add_task_def l)
  have a2: "load (snd (add_task uuid_hex created title' description' due remind Malformed)) =
       [fst (add_task uuid_hex created title' description' due remind Malformed)]"
    by (simp add: add_task_load l)
  show ?thesis
    using l g li u d r a a2 by (simp add: complete_task_def)
qed

lemma malformed_as_empty_example:
  "get_task Malformed ''abc12345'' = None \<and>
   list_tasks now0 Malformed ''all'' = [] \<and>
   complete_task Malformed ''abc12345'' = (None, Malformed) \<and>
   delete_task Malformed ''abc12345'' = (None, Malformed) \<and>
   get_due_reminders now0 Malformed = ([], Malformed) \<and>
   add_request_task request_a Malformed = add_request_task request_a (Json []) \<and>
   load (snd (add_request_task request_a Malformed)) = [fst (add_request_task request_a Malformed)]"
  using malformed_as_empty [where s = "''abc12345''" and now = now0 and flt = "''all''" and fs = no_fields
      and uuid_hex = "r_uuid_hex request_a" and created = "r_now request_a"
      and title' = "r_title request_a" and description' = "r_description request_a"
      and due = "r_due_at request_a" and remind = "r_remind_at request_a"]
  by (simp add: add_request_task_def add_task_def load_def save_def Let_def)

text \<open>
  C8 fails on the code for a file whose bytes are not UTF-8. Such a file cannot be
  parsed as structured data either, but what the read raises is \<^verbatim>\<open>UnicodeDecodeError\<close>,
  which the \<^verbatim>\<open>except json.JSONDecodeError\<close> clause of \<^verbatim>\<open>_load\<close> does not catch: \<^verbatim>\<open>_load\<close>
  raises, and so does every operation, before anything is written; \<open>add_task\<close> does not
  repair the file. For text that is not JSON the same operations return the results of
  an empty collection.
\<close>

theorem not_utf8_raises:
  "load_bytes NotUtf8 = Inl UnicodeDecodeError
   \<and> get_task_bytes NotUtf8 s = Inl UnicodeDecodeError
   \<and> list_tasks_bytes now NotUtf8 flt = Inl UnicodeDecodeError
   \<and> add_task_bytes uuid_hex created title' description' due remind NotUtf8 =
       (Inl UnicodeDecodeError, NotUtf8)
   \<and> update_task_bytes NotUtf8 s fs = (Inl UnicodeDecodeError, NotUtf8)
   \<and> complete_task_bytes NotUtf8 s = (Inl UnicodeDecodeError, NotUtf8)
   \<and> delete_task_bytes NotUtf8 s = (Inl UnicodeDecodeError, NotUtf8)
   \<and> get_due_reminders_bytes now NotUtf8 = (Inl UnicodeDecodeError, NotUtf8)
   \<and> load_bytes (Utf8 Malformed) = Inr []
   \<and> list_tasks_bytes now (Utf8 Malformed) flt = Inr []
   \<and> get_due_reminders_bytes now (Utf8 Malformed) = (Inr [], Utf8 Malformed)"
proof -
  have l: "load_bytes NotUtf8 = Inl UnicodeDecodeError"
    by (simp add: load_bytes_def)
  have m: "load_bytes (Utf8 Malformed) = Inr []"
    by (simp add: load_bytes_def load_def)
  have "get_task_bytes NotUtf8 s = Inl UnicodeDecodeError"
    by (simp add: get_task_bytes_def l)
  moreover have "list_tasks_bytes now NotUtf8 flt = Inl UnicodeDecodeError"
    by (simp add: list_tasks_bytes_def l)
  moreover have "add_task_bytes uuid_hex created title' description' due remind NotUtf8 =
       (Inl UnicodeDecodeError, NotUtf8)"
    by (simp add: add_task_bytes_def l)
  moreover have u: "update_task_bytes NotUtf8 s fs' = (Inl UnicodeDecodeError, NotUtf8)" for fs'
    by (simp add: update_task_bytes_def l)
  moreover have "complete_task_bytes NotUtf8 s = (Inl UnicodeDecodeError, NotUtf8)"
    by (simp add: complete_task_bytes_def u)
  moreover have "delete_task_bytes NotUtf8 s = (Inl UnicodeDecodeError, NotUtf8)"
    by (simp add: delete_task_bytes_def l)
  moreover have "get_due_reminders_bytes now NotUtf8 = (Inl UnicodeDecodeError, NotUtf8)"
    by (simp add: get_due_reminders_bytes_def l)
  moreover have "list_tasks_bytes now (Utf8 Malformed) flt = Inr []"
    by (simp add: list_tasks_bytes_def m list_tasks_def load_def)
  moreover have "get_due_reminders_bytes now (Utf8 Malformed) = (Inr [], Utf8 Malformed)"
    by (simp add: get_due_reminders_bytes_def m get_due_reminders_def load_def)
  ultimately show ?thesis
    using l m by blast
qed

theorem not_utf8_raises_witness:
  "list_tasks_bytes now0 NotUtf8 ''all'' = Inl UnicodeDecodeError \<and>
   get_task_bytes NotUtf8 ''abc12345'' = Inl UnicodeDecodeError \<and>
   get_due_reminders_bytes now0 NotUtf8 = (Inl UnicodeDecodeError, NotUtf8) \<and>
   add_task_bytes (r_uuid_hex request_a) (r_now request_a) (r_title request_a)
       (r_description request_a) (r_due_at request_a) (r_remind_at request_a) NotUtf8 =
     (Inl UnicodeDecodeError, NotUtf8) \<and>
   list_tasks_bytes now0 (Utf8 Malformed) ''all'' = Inr []"
  using not_utf8_raises [where s = "''abc12345''" and now = now0 and flt = "''all''"
      and fs = no_fields
      and uuid_hex = "r_uuid_hex request_a" and created = "r_now request_a"
      and title' = "r_title request_a" and description' = "r_description request_a"
      and due = "r_due_at request_a" and remind = "r_remind_at request_a"]
  by simp

section \<open>Ids given by \<^verbatim>\<open>add_task\<close>\<close>

text \<open>
  C4, as the code has it. \<open>add_task\<close> takes the first 8 hexadecimal digits of a fresh
  uuid and does not compare them with the ids in the store. After any sequence of
  \<open>add_task\<close> calls the ids in the store are the ids that were there, followed by the
  prefixes drawn, in call order. They are pairwise distinct exactly when the ids that
  were there are, the prefixes drawn are, and no prefix drawn is an id that was there.
\<close>

theorem add_ids_unique_when_fresh:
  "map id_t (load (add_tasks rs f)) = map id_t (load f) @ map (\<lambda>r. take 8 (r_uuid_hex r)) rs
   \<and> (distinct (map id_t (load (add_tasks rs f))) \<longleftrightarrow>
        distinct (map id_t (load f)) \<and> distinct (map (\<lambda>r. take 8 (r_uuid_hex r)) rs) \<and>
        set (map id_t (load f)) \<inter> set (map (\<lambda>r. take 8 (r_uuid_hex r)) rs) = {})"
proof
  show ids: "map id_t (load (add_tasks rs f)) =
      map id_t (load f) @ map (\<lambda>r. take 8 (r_uuid_hex r)) rs"
    by (rule add_tasks_ids)
  show "distinct (map id_t (load (add_tasks rs f))) \<longleftrightarrow>
        distinct (map id_t (load f)) \<and> distinct (map (\<lambda>r. take 8 (r_uuid_hex r)) rs) \<and>
        set (map id_t (load f)) \<inter> set (map (\<lambda>r. take 8 (r_uuid_hex r)) rs) = {}"
    unfolding ids by (rule distinct_append)
qed

theorem add_ids_unique_when_fresh_witness:
  "map id_t (load (add_tasks [request_a, request_c] (Json [task_past]))) =
     [''abc12345'', ''1b4e28ba'', ''7d444840''] \<and>
   distinct (map id_t (load (add_tasks [request_a, request_c] (Json [task_past]))))"
  using add_ids_unique_when_fresh [of "[request_a, request_c]" "Json [task_past]"]
  by (simp add: load_def request_a_def request_c_def task_past_def)


text \<open>
  C4, as stated, fails: two calls whose uuids differ but share their first 8 digits
  leave two tasks with the same id in the store.
\<close>

theorem add_ids_collide:
  "r_uuid_hex request_a \<noteq> r_uuid_hex request_b \<and>
   map id_t (load (add_tasks [request_a, request_b] (Json []))) = [''1b4e28ba'', ''1b4e28ba''] \<and>
   \<not> distinct (map id_t (load (add_tasks [request_a, request_b] (Json []))))"
  by (simp add: add_request_task_def add_task_def load_def save_def Let_def
      request_a_def request_b_def)

section \<open>The \<open>notified\<close> flag under the operations\<close>

text \<open>
  C5, as the code has it, for calls that do not overlap: each conjunct compares the
  file an operation saves with the file the same operation loaded, so nothing else
  writes between its \<^verbatim>\<open>_load\<close> and its \<^verbatim>\<open>_save\<close>. \<open>get_task\<close> and \<open>list_tasks\<close> write
  nothing. \<open>add_task\<close> leaves every record of the store as it was and appends one.
  \<open>update_task\<close> keeps the number and positions of the records, keeps their ids when
  \<open>id\<close> is not among the fields given, and keeps every \<open>notified\<close> flag that is true
  provided the fields given do not set \<open>notified\<close> to false. \<open>complete_task\<close> keeps all
  ids and every true flag. \<open>delete_task\<close> removes the record it returns and leaves the
  others as they were. \<open>get_due_reminders\<close> keeps all ids and every true flag.

  For calls that overlap the last conjunct says what is written: a \<open>get_due_reminders\<close>
  call that selected something saves the list \<open>tasks\<close> it loaded itself, with the flag
  set on the tasks it selected, whatever the file \<open>g\<close> holds by then; a flag another
  call has set in \<open>g\<close> since is written back as \<open>tasks\<close> has it.
\<close>

theorem notified_kept:
  "load (snd (add_task uuid_hex created title' description' due remind f)) =
     load f @ [fst (add_task uuid_hex created title' description' due remind f)]
   \<and> (f_notified fs \<noteq> Some False \<longrightarrow>
        length (load (snd (update_task f s fs))) = length (load f) \<and>
        (\<forall>i < length (load f). notified (load f ! i) \<longrightarrow>
            notified (load (snd (update_task f s fs)) ! i)))
   \<and> (f_id fs = None \<longrightarrow> map id_t (load (snd (update_task f s fs))) = map id_t (load f))
   \<and> map id_t (load (snd (complete_task f s))) = map id_t (load f)
   \<and> (\<forall>i < length (load f). notified (load f ! i) \<longrightarrow>
          notified (load (snd (complete_task f s)) ! i))
   \<and> load (snd (delete_task f s)) =
       (case fst (delete_task f s) of None \<Rightarrow> load f | Some t \<Rightarrow> remove1 t (load f))
   \<and> map id_t (load (snd (get_due_reminders now f))) = map id_t (load f)
   \<and> (\<forall>i < length (load f). notified (load f ! i) \<longrightarrow>
          notified (load (snd (get_due_reminders now f)) ! i))
   \<and> load (snd (due_finish now tasks g)) =
       (if filter (is_due now) tasks = [] then load g
        else map (\<lambda>t. if is_due now t then t\<lparr>notified := True\<rparr> else t) tasks)"
proof (intro conjI impI allI)
  show "load (snd (add_task uuid_hex created title' description' due remind f)) =
     load f @ [fst (add_task uuid_hex created title' description' due remind f)]"
    by (rule add_task_load)
  show "length (load (snd (update_task f s fs))) = length (load f)"
    by (rule update_task_length)
  show "map id_t (load (snd (update_task f s fs))) = map id_t (load f)" if "f_id fs = None"
    using that by (rule update_task_ids)
  have c: "f_notified (no_fields\<lparr>f_status := Some ''completed''\<rparr>) \<noteq> Some False"
    "f_id (no_fields\<lparr>f_status := Some ''completed''\<rparr>) = None"
    by (simp_all add: no_fields_def)
  show "map id_t (load (snd (complete_task f s))) = map id_t (load f)"
    unfolding complete_task_def using c(2) by (rule update_task_ids)
  show "notified (load (snd (complete_task f s)) ! i)"
    if "i < length (load f)" "notified (load f ! i)" for i
    unfolding complete_task_def using c(1) that by (rule update_task_keeps_notified)
  show "load (snd (delete_task f s)) =
       (case fst (delete_task f s) of None \<Rightarrow> load f | Some t \<Rightarrow> remove1 t (load f))"
    by (rule delete_task_load)
  show "map id_t (load (snd (get_due_reminders now f))) = map id_t (load f)"
    by (rule get_due_reminders_ids)
  show "notified (load (snd (get_due_reminders now f)) ! i)"
    if "i < length (load f)" "notified (load f ! i)" for i
    using that by (rule get_due_reminders_keeps_notified)
  show "notified (load (snd (update_task f s fs)) ! i)"
    if "f_notified fs \<noteq> Some False" "i < length (load f)" "notified (load f ! i)" for i
    using that by (rule update_task_keeps_notified)
  show "load (snd (due_finish now tasks g)) =
       (if filter (is_due now) tasks = [] then load g
        else map (\<lambda>t. if is_due now t then t\<lparr>notified := True\<rparr> else t) tasks)"
    using due_finish_load [of now tasks g] by (simp add: set_notified_def)
qed

theorem notified_kept_witness:
  "f_notified (no_fields\<lparr>f_title := Some ''Renamed''\<rparr>) \<noteq> Some False \<and>
   map notified (load (Json [task_past\<lparr>notified := True\<rparr>, task_future])) = [True, False] \<and>
   map notified (load (snd (update_task (Json [task_past\<lparr>notified := True\<rparr>, task_future])
                              ''abc1'' (no_fields\<lparr>f_title := Some ''Renamed''\<rparr>)))) = [True, False] \<and>
   map notified (load (snd (complete_task (Json [task_past\<lparr>notified := True\<rparr>, task_future])
                              ''abc1''))) = [True, False] \<and>
   map notified (load (snd (get_due_reminders now0
                              (Json [task_past\<lparr>notified := True\<rparr>, task_future])))) = [True, False] \<and>
   load (snd (delete_task (Json [task_past\<lparr>notified := True\<rparr>, task_future]) ''abc9'')) =
     [task_past\<lparr>notified := True\<rparr>] \<and>
   map notified (load (disk (run [Load B, Load A, Finish B later]
                              (Json [task_past, task_future])))) = [True, True] \<and>
   map notified (load (disk (run [Load B, Load A, Finish B later, Finish A now0]
                              (Json [task_past, task_future])))) = [True, False]"
  using notified_kept [where f = "Json [task_past\<lparr>notified := True\<rparr>, task_future]"
      and fs = "no_fields\<lparr>f_title := Some ''Renamed''\<rparr>" and s = "''abc1''" and now = now0
      and tasks = "[task_past, task_future]"
      and g = "Json [task_past\<lparr>notified := True\<rparr>, task_future\<lparr>notified := True\<rparr>]"]
    notified_kept [where f = "Json [task_past\<lparr>notified := True\<rparr>, task_future]"
      and fs = no_fields and s = "''abc9''" and now = now0]
  by (simp add: complete_task_def update_task_def delete_task_def find_pos_def find_task_def
      dict_update_def no_fields_def startswith_def get_due_reminders_def is_due_def
      set_notified_def load_def save_def now0_def later_def task_past_def task_future_def
      run_def due_finish_def Let_def)

text \<open>
  C5, as stated, fails for \<open>update_task\<close>: it stores whatever fields it is given, and
  given \<open>notified = False\<close> it resets the flag of a notified task whose id stays the same.
\<close>

theorem update_resets_notified:
  "map id_t (load (Json [task_past\<lparr>notified := True\<rparr>])) = [''abc12345''] \<and>
   map notified (load (Json [task_past\<lparr>notified := True\<rparr>])) = [True] \<and>
   map id_t (load (snd (update_task (Json [task_past\<lparr>notified := True\<rparr>]) ''abc12345''
                          (no_fields\<lparr>f_notified := Some False\<rparr>)))) = [''abc12345''] \<and>
   map notified (load (snd (update_task (Json [task_past\<lparr>notified := True\<rparr>]) ''abc12345''
                          (no_fields\<lparr>f_notified := Some False\<rparr>)))) = [False]"
  by (simp add: update_task_def find_pos_def dict_update_def no_fields_def load_def save_def
      task_past_def Let_def)

section \<open>Two callers of \<^verbatim>\<open>get_due_reminders\<close>\<close>

text \<open>
  C2, as the code has it. The selection and the write of \<open>get_due_reminders\<close> are not
  one locked cycle: \<^verbatim>\<open>_load\<close> and \<^verbatim>\<open>_save\<close> each take and release their own lock. When
  one caller runs both before the other starts, in either order, no task is reported
  by both. In each of the four schedules in which both callers load before either
  finishes, each caller returns what a call on the file they both read returns, so a
  reminder due for both is reported by both.
\<close>

theorem due_reminders_two_callers:
  "reported (caller_a (run [Load A, Finish A n1, Load B, Finish B n2] f)) \<inter>
   reported (caller_b (run [Load A, Finish A n1, Load B, Finish B n2] f)) = {}
   \<and> reported (caller_a (run [Load B, Finish B n2, Load A, Finish A n1] f)) \<inter>
     reported (caller_b (run [Load B, Finish B n2, Load A, Finish A n1] f)) = {}
   \<and> (\<forall>evs \<in> {[Load A, Load B, Finish A n1, Finish B n2], [Load A, Load B, Finish B n2, Finish A n1],
                [Load B, Load A, Finish A n1, Finish B n2], [Load B, Load A, Finish B n2, Finish A n1]}.
        caller_a (run evs f) = Returned (fst (get_due_reminders n1 f)) \<and>
        caller_b (run evs f) = Returned (fst (get_due_reminders n2 f)))"
proof (intro conjI ballI)
  show "reported (caller_a (run [Load A, Finish A n1, Load B, Finish B n2] f)) \<inter>
        reported (caller_b (run [Load A, Finish A n1, Load B, Finish B n2] f)) = {}"
    unfolding run_serial_ab using due_twice_disjoint [of n1 f n2] by simp
  show "reported (caller_a (run [Load B, Finish B n2, Load A, Finish A n1] f)) \<inter>
        reported (caller_b (run [Load B, Finish B n2, Load A, Finish A n1] f)) = {}"
    unfolding run_serial_ba using due_twice_disjoint [of n2 f n1] by (simp add: Int_commute)
next
  fix evs
  assume "evs \<in> {[Load A, Load B, Finish A n1, Finish B n2], [Load A, Load B, Finish B n2, Finish A n1],
                  [Load B, Load A, Finish A n1, Finish B n2], [Load B, Load A, Finish B n2, Finish A n1]}"
  then have r: "caller_a (run evs f) = Returned (fst (get_due_reminders n1 f)) \<and>
         caller_b (run evs f) = Returned (fst (get_due_reminders n2 f))"
    by (rule run_overlap)
  from r show "caller_a (run evs f) = Returned (fst (get_due_reminders n1 f))" ..
  from r show "caller_b (run evs f) = Returned (fst (get_due_reminders n2 f))" ..
qed

theorem due_reminders_two_callers_witness:
  "caller_a (run [Load A, Finish A now0, Load B, Finish B now0] (Json [task_past, task_future])) =
     Returned [task_past\<lparr>notified := True\<rparr>] \<and>
   caller_b (run [Load A, Finish A now0, Load B, Finish B now0] (Json [task_past, task_future])) =
     Returned [] \<and>
   reported (caller_a (run [Load A, Finish A now0, Load B, Finish B now0] (Json [task_past, task_future]))) \<inter>
   reported (caller_b (run [Load A, Finish A now0, Load B, Finish B now0] (Json [task_past, task_future]))) = {}"
  using due_reminders_two_callers [of now0 now0 "Json [task_past, task_future]"]
  by (simp add: run_def due_finish_def is_due_def set_notified_def load_def save_def
      now0_def task_past_def task_future_def Let_def)


text \<open>
  C2, as stated, fails: both callers load the file holding one due task, then both
  finish; each reports that task.
\<close>

theorem due_reminders_reported_twice:
  "caller_a (run [Load A, Load B, Finish A now0, Finish B now0] (Json [task_past, task_future])) =
     Returned [task_past\<lparr>notified := True\<rparr>] \<and>
   caller_b (run [Load A, Load B, Finish A now0, Finish B now0] (Json [task_past, task_future])) =
     Returned [task_past\<lparr>notified := True\<rparr>] \<and>
   reported (caller_a (run [Load A, Load B, Finish A now0, Finish B now0] (Json [task_past, task_future]))) \<inter>
   reported (caller_b (run [Load A, Load B, Finish A now0, Finish B now0] (Json [task_past, task_future]))) \<noteq> {}"
  by (simp add: run_def due_finish_def is_due_def set_notified_def load_def save_def
      now0_def task_past_def task_future_def Let_def)

end
